theory Spec2Isabelle
  imports Main "HOL-Library.Sublist" "HOL-Library.Word"
begin

section \<open>make-prc-key: characters and decimal output\<close>

text \<open>
  The program under study is \<^verbatim>\<open>dtool/src/prckeys/makePrcKey.cxx\<close>.  Text written to a
  C++ stream is a \<^typ>\<open>string\<close> (a list of 8-bit characters); the bytes held by a memory BIO
  are a list of characters as well.
\<close>

definition c_newline :: char where "c_newline = CHR 0x0A"
definition c_tab :: char where "c_tab = CHR 0x09"
definition c_backslash :: char where "c_backslash = CHR 0x5C"
definition c_dquote :: char where "c_dquote = CHR 0x22"

text \<open>\<^verbatim>\<open>isprint\<close> of the C library, in the "C" locale: the codes 0x20 to 0x7E.\<close>

definition isprint :: "char \<Rightarrow> bool" where
  "isprint c = (32 \<le> (of_char c :: nat) \<and> (of_char c :: nat) \<le> 126)"

definition dec_digit :: "nat \<Rightarrow> char" where
  "dec_digit d = char_of (48 + d)"

text \<open>\<^verbatim>\<open>out << n\<close> for an unsigned value: its decimal digits, no padding.\<close>

fun show_nat :: "nat \<Rightarrow> string" where
  "show_nat n = (if n < 10 then [dec_digit n] else show_nat (n div 10) @ [dec_digit (n mod 10)])"

declare show_nat.simps [simp del]

text \<open>\<^verbatim>\<open>out << n\<close> for a signed value (\<^verbatim>\<open>int\<close>, \<^verbatim>\<open>time_t\<close>).\<close>

definition show_int :: "int \<Rightarrow> string" where
  "show_int i = (if i < 0 then CHR ''-'' # show_nat (nat (- i)) else show_nat (nat i))"

text \<open>One lower-case hexadecimal digit, as \<^verbatim>\<open>std::hex\<close> prints it.\<close>

definition hex_digit :: "nat \<Rightarrow> char" where
  "hex_digit d = (if d < 10 then char_of (48 + d) else char_of (87 + d))"

text \<open>
  \<^verbatim>\<open>std::hex << std::setw(2) << std::setfill('0') << (unsigned int)(unsigned char)c\<close>:
  exactly two hexadecimal digits for a byte.
\<close>

definition hex_byte :: "char \<Rightarrow> string" where
  "hex_byte c = [hex_digit ((of_char c :: nat) div 16), hex_digit ((of_char c :: nat) mod 16)]"

section \<open>The serializer \<^verbatim>\<open>output_c_string\<close>\<close>

text \<open>
  The loop of \<^verbatim>\<open>output_c_string\<close> (source lines 84 to 107).  The flag is the local
  \<^verbatim>\<open>last_nl\<close>; the result is the text streamed between the opening quote and the
  closing quote of the literal.
\<close>

fun c_string_loop :: "bool \<Rightarrow> char list \<Rightarrow> string" where
  "c_string_loop last_nl [] = []"
| "c_string_loop last_nl (c # cs) =
     (if c = c_newline then [c_backslash, CHR ''n''] @ c_string_loop True cs
      else (if last_nl then [c_dquote, c_newline, CHR '' '', CHR '' '', c_dquote] else [])
           @ (if c = c_tab then [c_backslash, CHR ''t'']
              else if isprint c then [c]
              else [c_backslash, CHR ''x''] @ hex_byte c)
           @ c_string_loop False cs)"

text \<open>The two declarations written by \<^verbatim>\<open>output_c_string\<close>: the literal and its length.\<close>

definition c_string_decl_data :: "string \<Rightarrow> nat \<Rightarrow> char list \<Rightarrow> string" where
  "c_string_decl_data string_name index data =
     ''static const char * const '' @ string_name @ show_nat index @ ''_data ='' @ [c_newline]
     @ ''  '' @ [c_dquote] @ c_string_loop False data @ [c_dquote]"

definition c_string_decl_length :: "string \<Rightarrow> nat \<Rightarrow> char list \<Rightarrow> string" where
  "c_string_decl_length string_name index data =
     '';'' @ [c_newline] @ ''static const unsigned int '' @ string_name @ show_nat index
     @ ''_length = '' @ show_nat (length data) @ '';'' @ [c_newline]"

definition output_c_string :: "string \<Rightarrow> nat \<Rightarrow> char list \<Rightarrow> string" where
  "output_c_string string_name index data =
     c_string_decl_data string_name index data @ c_string_decl_length string_name index data"

section \<open>File names\<close>

text \<open>
  Modelled from the spec: the class \<^verbatim>\<open>Filename\<close> (\<^verbatim>\<open>filename.h\<close>) is not among the
  sources at hand.  The spec speaks of a "required extension \<^verbatim>\<open>.cxx\<close>", of "a filename stem"
  and of "a program name derived from the output file's base name".  A file name is kept as
  the string it was built from; the base name starts after the last slash, and the extension
  is what follows the last dot of the base name (empty when the base name has no dot).
\<close>

type_synonym Filename = string

definition get_basename :: "Filename \<Rightarrow> string" where
  "get_basename f = rev (takeWhile (\<lambda>c. c \<noteq> CHR ''/'') (rev f))"

definition get_dirname_slash :: "Filename \<Rightarrow> string" where
  "get_dirname_slash f = take (length f - length (get_basename f)) f"

definition get_extension :: "Filename \<Rightarrow> string" where
  "get_extension f =
     (let b = get_basename f
      in if CHR ''.'' \<in> set b then rev (takeWhile (\<lambda>c. c \<noteq> CHR ''.'') (rev b)) else [])"

definition get_basename_wo_extension :: "Filename \<Rightarrow> string" where
  "get_basename_wo_extension f =
     (let b = get_basename f
      in if CHR ''.'' \<in> set b then take (length b - Suc (length (get_extension f))) b else b)"

definition get_fullpath_wo_extension :: "Filename \<Rightarrow> string" where
  "get_fullpath_wo_extension f = get_dirname_slash f @ get_basename_wo_extension f"

section \<open>Reading a trust level: \<^verbatim>\<open>strtol\<close> and one positional argument\<close>

text \<open>
  \<^verbatim>\<open>strtol(nptr, &endptr, 0)\<close> of the C library: leading white space, an optional sign, the
  base taken from the prefix (\<^verbatim>\<open>0x\<close> hexadecimal, \<^verbatim>\<open>0\<close> octal, decimal otherwise), then the
  longest run of digits of that base.  With no digit at all the value is 0 and \<^verbatim>\<open>endptr\<close> is
  \<^verbatim>\<open>nptr\<close>.  A value out of the range of \<^verbatim>\<open>long\<close> is replaced by the nearest bound; \<^verbatim>\<open>long\<close>
  has 64 bits here.  The result is the value and the text \<^verbatim>\<open>endptr\<close> points to.
\<close>

definition isspace :: "char \<Rightarrow> bool" where
  "isspace c = ((of_char c :: nat) = 32 \<or> (9 \<le> (of_char c :: nat) \<and> (of_char c :: nat) \<le> 13))"

definition digit_value :: "char \<Rightarrow> nat option" where
  "digit_value c =
     (let k = (of_char c :: nat)
      in if 48 \<le> k \<and> k \<le> 57 then Some (k - 48)
         else if 97 \<le> k \<and> k \<le> 122 then Some (k - 87)
         else if 65 \<le> k \<and> k \<le> 90 then Some (k - 55)
         else None)"

definition digit_in_base :: "nat \<Rightarrow> char \<Rightarrow> nat option" where
  "digit_in_base b c =
     (case digit_value c of None \<Rightarrow> None | Some d \<Rightarrow> if d < b then Some d else None)"

fun strtol_digits :: "nat \<Rightarrow> int \<Rightarrow> string \<Rightarrow> int \<times> string" where
  "strtol_digits b acc [] = (acc, [])"
| "strtol_digits b acc (c # cs) =
     (case digit_in_base b c of
        None \<Rightarrow> (acc, c # cs)
      | Some d \<Rightarrow> strtol_digits b (acc * int b + int d) cs)"

definition strtol_sign :: "string \<Rightarrow> bool \<times> string" where
  "strtol_sign s =
     (case s of
        [] \<Rightarrow> (False, s)
      | c # r \<Rightarrow> if c = CHR ''-'' then (True, r) else if c = CHR ''+'' then (False, r) else (False, s))"

definition strtol_base :: "string \<Rightarrow> nat \<times> string" where
  "strtol_base s =
     (case s of
        [] \<Rightarrow> (10, s)
      | c # r \<Rightarrow>
          if c \<noteq> CHR ''0'' then (10, s)
          else (case r of
                  x # h # t \<Rightarrow>
                    if (x = CHR ''x'' \<or> x = CHR ''X'') \<and> digit_in_base 16 h \<noteq> None
                    then (16, h # t) else (8, s)
                | _ \<Rightarrow> (8, s)))"

definition LONG_MAX :: int where "LONG_MAX = 2 ^ 63 - 1"
definition LONG_MIN :: int where "LONG_MIN = - (2 ^ 63)"

definition clamp_long :: "int \<Rightarrow> int" where
  "clamp_long v = (if v < LONG_MIN then LONG_MIN else if LONG_MAX < v then LONG_MAX else v)"

definition strtol :: "string \<Rightarrow> int \<times> string" where
  "strtol nptr =
     (let (neg, s2) = strtol_sign (dropWhile isspace nptr);
          (base, s3) = strtol_base s2
      in case s3 of
           [] \<Rightarrow> (0, nptr)
         | c # _ \<Rightarrow>
             if digit_in_base base c = None then (0, nptr)
             else (let (v, rest) = strtol_digits base 0 s3
                   in (clamp_long (if neg then - v else v), rest)))"

text \<open>The cast \<^verbatim>\<open>(int)\<close> of a \<^verbatim>\<open>long\<close>: the low 32 bits, read as two's complement.\<close>

definition long_to_int :: "int \<Rightarrow> int" where
  "long_to_int v = sint (word_of_int v :: 32 word)"

text \<open>The class \<^verbatim>\<open>KeyNumber\<close> (its members carry a leading underscore in the source).\<close>

record KeyNumber =
  k_number :: int
  k_got_pass_phrase :: bool
  k_pass_phrase :: string

text \<open>
  The body of the loop over the positional arguments (source lines 408 to 427), for one
  argument.  \<open>Inl\<close> carries the message written to \<^verbatim>\<open>cerr\<close> before \<^verbatim>\<open>exit(1)\<close>.
\<close>

definition not_integer_message :: "string \<Rightarrow> string" where
  "not_integer_message arg = ''Parameter '' @ [CHR 0x27] @ arg @ [CHR 0x27] @ '' should be an integer.'' @ [c_newline]"

definition not_positive_message :: "int \<Rightarrow> string" where
  "not_positive_message n =
     ''Key numbers must be greater than 0; you specified '' @ show_int n @ ''.'' @ [c_newline]"

definition parse_key_number :: "bool \<Rightarrow> string \<Rightarrow> string \<Rightarrow> string + KeyNumber" where
  "parse_key_number got_pass_phrase pass_phrase arg =
     (let (v, endptr) = strtol arg;
          key = \<lparr>k_number = long_to_int v, k_got_pass_phrase = got_pass_phrase,
                 k_pass_phrase = pass_phrase\<rparr>;
          check = (\<lambda>key. if k_number key \<le> 0 then Inl (not_positive_message (k_number key))
                          else Inr key)
      in case endptr of
           [] \<Rightarrow> check key
         | c # rest \<Rightarrow>
             if c = CHR '','' then check (key\<lparr>k_got_pass_phrase := True, k_pass_phrase := rest\<rparr>)
             else Inl (not_integer_message arg))"

text \<open>The whole loop: the requests in argument order, or the message of the first bad argument.\<close>

fun parse_key_numbers :: "bool \<Rightarrow> string \<Rightarrow> string list \<Rightarrow> string + KeyNumber list" where
  "parse_key_numbers got_pass_phrase pass_phrase [] = Inr []"
| "parse_key_numbers got_pass_phrase pass_phrase (arg # args) =
     (case parse_key_number got_pass_phrase pass_phrase arg of
        Inl msg \<Rightarrow> Inl msg
      | Inr key \<Rightarrow>
          (case parse_key_numbers got_pass_phrase pass_phrase args of
             Inl msg \<Rightarrow> Inl msg
           | Inr keys \<Rightarrow> Inr (key # keys)))"

section \<open>The world the tool runs in\<close>

text \<open>
  Keys are opaque handles of the cryptographic library.  What the library, the clock and
  the file system answer is given by an environment; what the run changes (the registry,
  the files, \<^verbatim>\<open>cerr\<close>) is kept in a state record and passed along.
\<close>

datatype EVP_PKEY = PKey nat

datatype cipher = DES_EDE3_CBC

text \<open>
  The three ways \<^verbatim>\<open>generate_key\<close> can end: \<^verbatim>\<open>RSA_new\<close> or \<^verbatim>\<open>BN_new\<close> returns null,
  \<^verbatim>\<open>RSA_generate_key_ex\<close> fails, or a key pair comes back.
\<close>

datatype keygen_outcome = AllocFailed | GenerateFailed | Generated EVP_PKEY

type_synonym key_slot = "(EVP_PKEY \<times> int) option"

record env =
  rsa_outcome :: "nat \<Rightarrow> keygen_outcome"
    \<comment> \<open>what the k-th call of \<^verbatim>\<open>generate_key\<close> in this process meets\<close>
  pem_pubkey :: "EVP_PKEY \<Rightarrow> char list option"
    \<comment> \<open>\<^verbatim>\<open>PEM_write_bio_PUBKEY\<close>: the bytes left in the memory BIO, \<open>None\<close> when it fails\<close>
  pem_pkcs8 :: "EVP_PKEY \<Rightarrow> cipher option \<Rightarrow> string option \<Rightarrow> char list option"
    \<comment> \<open>\<^verbatim>\<open>PEM_write_bio_PKCS8PrivateKey(mbio, pkey, enc, nullptr, 0, nullptr, u)\<close>\<close>
  can_open :: "Filename \<Rightarrow> bool"
    \<comment> \<open>whether \<^verbatim>\<open>open_write\<close> succeeds on this path\<close>
  wall_clock :: "nat \<Rightarrow> int"
    \<comment> \<open>what the k-th call of \<^verbatim>\<open>time(nullptr)\<close> returns\<close>
  compiled_in :: "(key_slot list \<times> Filename) option"
    \<comment> \<open>\<^verbatim>\<open>prc_pubkeys\<close> and \<^verbatim>\<open>PRC_PUBLIC_KEYS_FILENAME\<close> when \<^verbatim>\<open>PRC_PUBLIC_KEYS_INCLUDE\<close> is defined\<close>

datatype event =
    KeyGenerated EVP_PKEY
  | KeyRecorded nat EVP_PKEY int
  | FileOpened Filename
  | FileWritten Filename string

datatype cerr_item = Text string | UsageText | SslErrorQueue

record world =
  registry :: "key_slot list"
  events :: "event list"
  cerr :: "cerr_item list"
  keygen_calls :: nat
  time_calls :: nat

text \<open>
  A step of the program either ends the process (\<open>Inl\<close>: the exit status and the world at
  that moment) or goes on with a value and the new world.
\<close>

type_synonym 'a proc = "world \<Rightarrow> (int \<times> world) + ('a \<times> world)"

definition put_cerr :: "cerr_item \<Rightarrow> world \<Rightarrow> world" where
  "put_cerr m w = w\<lparr>cerr := cerr w @ [m]\<rparr>"

definition emit :: "event \<Rightarrow> world \<Rightarrow> world" where
  "emit ev w = w\<lparr>events := events w @ [ev]\<rparr>"

definition output_ssl_errors :: "world \<Rightarrow> world" where
  "output_ssl_errors w =
     put_cerr SslErrorQueue (put_cerr (Text (''Error occurred in SSL routines.'' @ [c_newline])) w)"

definition usage :: "world \<Rightarrow> world" where
  "usage w = put_cerr UsageText w"

definition time_now :: "env \<Rightarrow> world \<Rightarrow> int \<times> world" where
  "time_now e w = (wall_clock e (time_calls w), w\<lparr>time_calls := Suc (time_calls w)\<rparr>)"

section \<open>The key registry\<close>

text \<open>
  Modelled from the spec: the class \<^verbatim>\<open>PrcKeyRegistry\<close> (\<^verbatim>\<open>prcKeyRegistry.h\<close>) is not among
  the sources at hand.  The spec: "\<^verbatim>\<open>record(level, key_blob, timestamp)\<close> inserts or replaces
  the entry for \<^verbatim>\<open>level\<close>", "\<^verbatim>\<open>get(level)\<close> returns the key blob or a sentinel absent marker
  (never throws on an empty/unpopulated slot)", and the table's "array length always equals
  the registry's configured key-number space, so lookups by trust-level index remain valid
  even for levels never generated".  The registry is the list of its slots, indexed by key
  number from 0; recording a key beyond the end first extends the list with absent slots.
\<close>

definition get_num_keys :: "key_slot list \<Rightarrow> nat" where
  "get_num_keys reg = length reg"

definition get_key :: "key_slot list \<Rightarrow> nat \<Rightarrow> EVP_PKEY option" where
  "get_key reg i = (if i < length reg then map_option fst (reg ! i) else None)"

definition get_generated_time :: "key_slot list \<Rightarrow> nat \<Rightarrow> int" where
  "get_generated_time reg i =
     (if i < length reg then (case reg ! i of None \<Rightarrow> 0 | Some (pkey, t) \<Rightarrow> t) else 0)"

definition set_key :: "nat \<Rightarrow> EVP_PKEY \<Rightarrow> int \<Rightarrow> key_slot list \<Rightarrow> key_slot list" where
  "set_key n pkey generated_time reg =
     (reg @ replicate (Suc n - length reg) None)[n := Some (pkey, generated_time)]"

text \<open>
  Modelled from the spec: \<^verbatim>\<open>record_keys\<close>, the loader of the compiled-in table ("populated
  at startup either from compiled-in data or by a live generation run"): every entry of the
  table that holds a key is recorded at its index.
\<close>

fun record_keys :: "nat \<Rightarrow> key_slot list \<Rightarrow> key_slot list \<Rightarrow> key_slot list" where
  "record_keys i [] reg = reg"
| "record_keys i (None # defs) reg = record_keys (Suc i) defs reg"
| "record_keys i (Some (pkey, t) # defs) reg = record_keys (Suc i) defs (set_key i pkey t reg)"

section \<open>Key generation and the two writers\<close>

text \<open>
  \<^verbatim>\<open>generate_key\<close> (source lines 115 to 137): on either failure the errors of the library are
  printed and the process exits with status 1.
\<close>

definition generate_key :: "env \<Rightarrow> EVP_PKEY proc" where
  "generate_key e w =
     (let w1 = w\<lparr>keygen_calls := Suc (keygen_calls w)\<rparr>
      in case rsa_outcome e (keygen_calls w) of
           AllocFailed \<Rightarrow> Inl (1, output_ssl_errors w1)
         | GenerateFailed \<Rightarrow> Inl (1, output_ssl_errors w1)
         | Generated pkey \<Rightarrow> Inr (pkey, emit (KeyGenerated pkey) w1))"

definition rewriting_message :: "Filename \<Rightarrow> cerr_item" where
  "rewriting_message outfile = Text (''Rewriting '' @ outfile @ [c_newline])"

definition unable_to_open_message :: "Filename \<Rightarrow> cerr_item" where
  "unable_to_open_message outfile =
     Text (''Unable to open '' @ outfile @ '' for writing.'' @ [c_newline])"

text \<open>The first loop of \<^verbatim>\<open>write_public_keys\<close>: one blob for every key that is there.\<close>

fun public_key_blobs :: "env \<Rightarrow> key_slot list \<Rightarrow> nat list \<Rightarrow> string option" where
  "public_key_blobs e reg [] = Some []"
| "public_key_blobs e reg (i # is) =
     (case get_key reg i of
        None \<Rightarrow> public_key_blobs e reg is
      | Some pkey \<Rightarrow>
          (case pem_pubkey e pkey of
             None \<Rightarrow> None
           | Some data \<Rightarrow>
               (case public_key_blobs e reg is of
                  None \<Rightarrow> None
                | Some rest \<Rightarrow>
                    Some (output_c_string ''prc_pubkey'' i data @ [c_newline] @ rest))))"

text \<open>One pass of the second loop: the table entry of slot \<open>i\<close>.\<close>

definition public_key_entry :: "key_slot list \<Rightarrow> nat \<Rightarrow> string" where
  "public_key_entry reg i =
     (case get_key reg i of
        Some pkey \<Rightarrow>
          ''  { prc_pubkey'' @ show_nat i @ ''_data, prc_pubkey'' @ show_nat i @ ''_length, ''
          @ show_int (get_generated_time reg i) @ '' },'' @ [c_newline]
      | None \<Rightarrow> ''  { nullptr, 0, 0 },'' @ [c_newline])"

definition public_keys_header :: string where
  "public_keys_header =
     [c_newline]
     @ ''// This file was generated by make-prc-key.  It defines the public keys'' @ [c_newline]
     @ ''// that will be used to validate signed prc files.'' @ [c_newline]
     @ [c_newline]
     @ ''#include '' @ [c_dquote] @ ''prcKeyRegistry.h'' @ [c_dquote] @ [c_newline]
     @ [c_newline]"

definition public_keys_table :: "key_slot list \<Rightarrow> string" where
  "public_keys_table reg =
     ''static PrcKeyRegistry::KeyDef const prc_pubkeys['' @ show_nat (get_num_keys reg)
     @ ''] = {'' @ [c_newline]
     @ concat (map (public_key_entry reg) [0..<get_num_keys reg])
     @ ''};'' @ [c_newline]
     @ ''static const int num_prc_pubkeys = '' @ show_nat (get_num_keys reg) @ '';''
     @ [c_newline, c_newline]"

text \<open>
  \<^verbatim>\<open>write_public_keys\<close> (source lines 144 to 203).  A file that was opened and not completed
  (the process exits in between) is left as an event \<open>FileOpened\<close> without \<open>FileWritten\<close>.
\<close>

definition write_public_keys :: "env \<Rightarrow> Filename \<Rightarrow> unit proc" where
  "write_public_keys e outfile w =
     (let w1 = put_cerr (rewriting_message outfile) w
      in if \<not> can_open e outfile then Inl (1, put_cerr (unable_to_open_message outfile) w1)
         else (let w2 = emit (FileOpened outfile) w1
               in case public_key_blobs e (registry w2) [0..<get_num_keys (registry w2)] of
                    None \<Rightarrow> Inl (1, output_ssl_errors w2)
                  | Some blobs \<Rightarrow>
                      Inr ((), emit (FileWritten outfile
                                      (public_keys_header @ blobs @ public_keys_table (registry w2)))
                                    w2)))"

text \<open>
  The choice made at source lines 229 to 240: the cipher and the pass phrase handed to
  \<^verbatim>\<open>PEM_write_bio_PKCS8PrivateKey\<close>.  \<open>None\<close> stands for the null pointer.
\<close>

definition pkcs8_arguments :: "string option \<Rightarrow> cipher option \<times> string option" where
  "pkcs8_arguments pp =
     (if pp \<noteq> None \<and> the pp = [] then (None, None) else (Some DES_EDE3_CBC, pp))"

text \<open>An \<^verbatim>\<open>int\<close> passed where a \<^verbatim>\<open>size_t\<close> is expected (64 bits).\<close>

definition size_t_of_int :: "int \<Rightarrow> nat" where
  "size_t_of_int n = nat (n mod 2 ^ 64)"

definition private_key_header :: "int \<Rightarrow> string" where
  "private_key_header n =
     [c_newline]
     @ ''// This file was generated by make-prc-key.  It can be compiled against'' @ [c_newline]
     @ ''// dtool to produce a program that will sign a prc file using key number ''
     @ show_int n @ ''.'' @ [c_newline, c_newline]"

definition private_key_defines :: "Filename \<Rightarrow> int \<Rightarrow> int \<Rightarrow> string" where
  "private_key_defines outfile n now =
     [c_newline, c_newline]
     @ ''#define KEY_NUMBER '' @ show_int n @ [c_newline]
     @ ''#define KEY_DATA prc_privkey'' @ show_int n @ ''_data'' @ [c_newline]
     @ ''#define KEY_LENGTH prc_privkey'' @ show_int n @ ''_length'' @ [c_newline]
     @ ''#define PROGNAME '' @ [c_dquote] @ get_basename_wo_extension outfile @ [c_dquote]
     @ [c_newline]
     @ ''#define GENERATED_TIME '' @ show_int now @ [c_newline, c_newline]
     @ ''#include '' @ [c_dquote] @ ''signPrcFile_src.cxx'' @ [c_dquote] @ [c_newline, c_newline]"

definition private_key_text :: "Filename \<Rightarrow> int \<Rightarrow> int \<Rightarrow> char list \<Rightarrow> string" where
  "private_key_text outfile n now data =
     private_key_header n @ output_c_string ''prc_privkey'' (size_t_of_int n) data
     @ private_key_defines outfile n now"

text \<open>\<^verbatim>\<open>write_private_key\<close> (source lines 209 to 260).\<close>

definition write_private_key ::
  "env \<Rightarrow> EVP_PKEY \<Rightarrow> Filename \<Rightarrow> int \<Rightarrow> int \<Rightarrow> string option \<Rightarrow> unit proc" where
  "write_private_key e pkey outfile n now pp w =
     (let w1 = put_cerr (rewriting_message outfile) w
      in if \<not> can_open e outfile then Inl (1, put_cerr (unable_to_open_message outfile) w1)
         else (let w2 = emit (FileOpened outfile) w1;
                   (enc, u) = pkcs8_arguments pp
               in case pem_pkcs8 e pkey enc u of
                    None \<Rightarrow> Inl (1, output_ssl_errors w2)
                  | Some data \<Rightarrow>
                      Inr ((), emit (FileWritten outfile (private_key_text outfile n now data))
                                    w2)))"

section \<open>The command surface: \<^verbatim>\<open>main\<close>\<close>

text \<open>
  \<^verbatim>\<open>getopt\<close> is not part of the sources at hand.  The run is given what \<^verbatim>\<open>getopt\<close> returns,
  call after call, until it reports the end of the options (each flag character with its
  \<^verbatim>\<open>optarg\<close>; any character other than a, b, p and h stands for a flag \<^verbatim>\<open>getopt\<close> does not
  accept), and the arguments left over from \<^verbatim>\<open>optind\<close> on.
\<close>

record main_options =
  pub_outfile :: Filename
  got_pub_outfile :: bool
  priv_outfile :: Filename
  got_priv_outfile :: bool
  pass_phrase :: string
  got_pass_phrase :: bool

definition initial_options :: main_options where
  "initial_options =
     \<lparr>pub_outfile = [], got_pub_outfile = False, priv_outfile = [], got_priv_outfile = False,
      pass_phrase = [], got_pass_phrase = False\<rparr>"

text \<open>The \<^verbatim>\<open>while (flag != EOF)\<close> loop with its \<^verbatim>\<open>switch\<close> (source lines 340 to 365).\<close>

fun parse_flags :: "(char \<times> string) list \<Rightarrow> main_options \<Rightarrow> main_options proc" where
  "parse_flags [] opts w = Inr (opts, w)"
| "parse_flags ((flag, optarg) # rest) opts w =
     (if flag = CHR ''a'' then
        parse_flags rest (opts\<lparr>pub_outfile := optarg, got_pub_outfile := True\<rparr>) w
      else if flag = CHR ''b'' then
        parse_flags rest (opts\<lparr>priv_outfile := optarg, got_priv_outfile := True\<rparr>) w
      else if flag = CHR ''p'' then
        parse_flags rest (opts\<lparr>pass_phrase := optarg, got_pass_phrase := True\<rparr>) w
      else if flag = CHR ''h'' then Inl (0, usage w)
      else Inl (1, w))"

definition public_extension_message :: "Filename \<Rightarrow> cerr_item" where
  "public_extension_message f =
     Text (''Public key output file '' @ [CHR 0x27] @ f @ [CHR 0x27]
           @ '' should have a .cxx extension.'' @ [c_newline])"

definition private_extension_message :: "Filename \<Rightarrow> cerr_item" where
  "private_extension_message f =
     Text (''Private key output file '' @ [CHR 0x27] @ f @ [CHR 0x27]
           @ '' should have a .cxx extension.'' @ [c_newline])"

definition no_public_file_message :: cerr_item where
  "no_public_file_message =
     Text (''No -a specified, and no PRC_PUBLIC_KEYS_FILENAME variable'' @ [c_newline]
           @ ''compiled in.'' @ [c_newline, c_newline])"

definition no_private_file_message :: cerr_item where
  "no_private_file_message =
     Text (''You must use the -b option to specify the private key output filenames.''
           @ [c_newline])"

text \<open>The checks of the public output path (source lines 375 to 392).\<close>

definition validate_public_path :: "env \<Rightarrow> main_options \<Rightarrow> main_options proc" where
  "validate_public_path e opts w =
     (if got_pub_outfile opts then
        (if get_extension (pub_outfile opts) \<noteq> ''cxx''
         then Inl (1, put_cerr (public_extension_message (pub_outfile opts)) w)
         else Inr (opts, w))
      else
        (let (opts1, w1) =
               (case compiled_in e of
                  None \<Rightarrow> (opts, w)
                | Some (prc_pubkeys, filename) \<Rightarrow>
                    (opts\<lparr>pub_outfile := filename\<rparr>,
                     w\<lparr>registry := record_keys 0 prc_pubkeys (registry w)\<rparr>))
         in if pub_outfile opts1 = [] then Inl (1, put_cerr no_public_file_message w1)
            else Inr (opts1, w1)))"

text \<open>The checks of the private output path (source lines 394 to 404).\<close>

definition validate_private_path :: "main_options \<Rightarrow> unit proc" where
  "validate_private_path opts w =
     (if got_priv_outfile opts then
        (if get_extension (priv_outfile opts) \<noteq> ''cxx''
         then Inl (1, put_cerr (private_extension_message (priv_outfile opts)) w)
         else Inr ((), w))
      else Inl (1, put_cerr no_private_file_message w))"

text \<open>
  Source lines 438 to 452: the name of the private output file without its extension, cut at
  the first hash mark.  The result is \<^verbatim>\<open>prefix\<close>, \<^verbatim>\<open>suffix\<close> and \<^verbatim>\<open>got_hash\<close> (the first two
  are called \<open>name_prefix\<close> and \<open>name_suffix\<close> below).
\<close>

definition split_at_hash :: "string \<Rightarrow> string \<times> string \<times> bool" where
  "split_at_hash name =
     (if CHR ''#'' \<notin> set name then (name, ''.cxx'', False)
      else (takeWhile (\<lambda>c. c \<noteq> CHR ''#'') name,
            tl (dropWhile (\<lambda>c. c \<noteq> CHR ''#'') name) @ ''.cxx'', True))"

text \<open>Source lines 465 to 477: the name of the private-key file of key number \<open>n\<close>.\<close>

definition private_key_filename :: "string \<times> string \<times> bool \<Rightarrow> int \<Rightarrow> Filename" where
  "private_key_filename tmpl n =
     (case tmpl of (name_prefix, name_suffix, got_hash) \<Rightarrow>
        if got_hash \<or> n \<noteq> 1 then name_prefix @ show_int n @ name_suffix
        else name_prefix @ name_suffix)"

text \<open>Source lines 457 to 460: the pointer \<^verbatim>\<open>pp\<close> of one request.\<close>

definition request_pass_phrase :: "KeyNumber \<Rightarrow> string option" where
  "request_pass_phrase ki = (if k_got_pass_phrase ki then Some (k_pass_phrase ki) else None)"

text \<open>The loop over the requests (source lines 454 to 480).\<close>

fun generate_loop ::
  "env \<Rightarrow> int \<Rightarrow> string \<times> string \<times> bool \<Rightarrow> KeyNumber list \<Rightarrow> unit proc" where
  "generate_loop e now tmpl [] w = Inr ((), w)"
| "generate_loop e now tmpl (ki # rest) w =
     (let n = k_number ki; pp = request_pass_phrase ki
      in case generate_key e w of
           Inl stop \<Rightarrow> Inl stop
         | Inr (pkey, w1) \<Rightarrow>
             (let w2 = emit (KeyRecorded (size_t_of_int n) pkey now)
                         (w1\<lparr>registry := set_key (size_t_of_int n) pkey now (registry w1)\<rparr>)
              in case write_private_key e pkey (private_key_filename tmpl n) n now pp w2 of
                   Inl stop \<Rightarrow> Inl stop
                 | Inr (u, w3) \<Rightarrow> generate_loop e now tmpl rest w3))"

text \<open>
  The first half of \<^verbatim>\<open>main\<close> (source lines 338 to 428): the options, the count of the
  positional arguments, the two paths, the list of requests.
\<close>

definition parse_command_line ::
  "env \<Rightarrow> (char \<times> string) list \<Rightarrow> string list \<Rightarrow> (main_options \<times> KeyNumber list) proc" where
  "parse_command_line e flags args w =
     (case parse_flags flags initial_options w of
        Inl stop \<Rightarrow> Inl stop
      | Inr (opts, w1) \<Rightarrow>
          if length args < 1 then Inl (1, usage w1)
          else
            (case validate_public_path e opts w1 of
               Inl stop \<Rightarrow> Inl stop
             | Inr (opts2, w2) \<Rightarrow>
                 (case validate_private_path opts2 w2 of
                    Inl stop \<Rightarrow> Inl stop
                  | Inr (u, w3) \<Rightarrow>
                      (case parse_key_numbers (got_pass_phrase opts2) (pass_phrase opts2) args of
                         Inl msg \<Rightarrow> Inl (1, put_cerr (Text msg) w3)
                       | Inr key_numbers \<Rightarrow> Inr ((opts2, key_numbers), w3)))))"

text \<open>
  The second half of \<^verbatim>\<open>main\<close> (source lines 430 to 484): the clock is read, the template is
  cut, the requests are served, the public table is written, and \<^verbatim>\<open>main\<close> returns 0.
\<close>

definition generate_all :: "env \<Rightarrow> main_options \<Rightarrow> KeyNumber list \<Rightarrow> world \<Rightarrow> int \<times> world" where
  "generate_all e opts key_numbers w =
     (let (now, w4) = time_now e w;
          tmpl = split_at_hash (get_fullpath_wo_extension (priv_outfile opts))
      in case generate_loop e now tmpl key_numbers w4 of
           Inl stop \<Rightarrow> stop
         | Inr (u, w5) \<Rightarrow>
             (case write_public_keys e (pub_outfile opts) w5 of
                Inl stop \<Rightarrow> stop
              | Inr (u, w6) \<Rightarrow> (0, w6)))"

text \<open>
  \<^verbatim>\<open>main\<close>, from the result of option scanning to the exit status.  The pair returned is the
  exit status and the world the process leaves behind.
\<close>

definition main :: "env \<Rightarrow> (char \<times> string) list \<Rightarrow> string list \<Rightarrow> world \<Rightarrow> int \<times> world" where
  "main e flags args w =
     (case parse_command_line e flags args w of
        Inl stop \<Rightarrow> stop
      | Inr ((opts, key_numbers), w3) \<Rightarrow> generate_all e opts key_numbers w3)"

section \<open>Notions used to state the properties\<close>

text \<open>
  What \<^verbatim>\<open>PEM_write_bio_PKCS8PrivateKey\<close> does with the cipher and the pointer \<^verbatim>\<open>u\<close> it is
  given (key string and callback being null), as the library documents it: without a cipher
  the key is written in the clear; with a cipher and a pass phrase the key is encrypted
  under that phrase; with a cipher and no pass phrase the library's default callback asks
  for one.
\<close>

datatype key_protection = Cleartext | EncryptedWith cipher string | EncryptedAfterPrompt cipher

definition pkcs8_protection :: "cipher option \<times> string option \<Rightarrow> key_protection" where
  "pkcs8_protection call =
     (case call of
        (None, u) \<Rightarrow> Cleartext
      | (Some c, None) \<Rightarrow> EncryptedAfterPrompt c
      | (Some c, Some phrase) \<Rightarrow> EncryptedWith c phrase)"

text \<open>
  Un-escaping, following the spec's words for the serializer: "\<^verbatim>\<open>\n\<close> \<rightarrow> literal
  two-character escape and a line break in the emitted text, \<^verbatim>\<open>\t\<close> \<rightarrow> two-character escape,
  any other non-printable byte \<rightarrow> a four-character hexadecimal escape, everything else
  copied verbatim".  Read backwards: backslash \<^verbatim>\<open>n\<close> is a newline byte, backslash \<^verbatim>\<open>t\<close> a tab
  byte, backslash \<^verbatim>\<open>x\<close> and two hexadecimal digits the byte with that code; the line break
  (quote, newline, two spaces, quote) stands for nothing; any other character stands for
  itself.
\<close>

definition hex_value :: "char \<Rightarrow> nat" where
  "hex_value c =
     (let k = (of_char c :: nat)
      in if 48 \<le> k \<and> k \<le> 57 then k - 48 else if 97 \<le> k \<and> k \<le> 102 then k - 87 else 0)"

fun unescape :: "string \<Rightarrow> char list" where
  "unescape [] = []"
| "unescape (c # cs) =
     (if c = c_backslash then
        (case cs of
           [] \<Rightarrow> []
         | k # r \<Rightarrow>
             if k = CHR ''n'' then c_newline # unescape r
             else if k = CHR ''t'' then c_tab # unescape r
             else if k = CHR ''x'' then
               (case r of
                  h # l # r' \<Rightarrow> char_of (16 * hex_value h + hex_value l) # unescape r'
                | _ \<Rightarrow> [])
             else [])
      else if c = c_dquote then
        (case cs of
           a # b # d # q # r \<Rightarrow>
             if a = c_newline \<and> b = CHR '' '' \<and> d = CHR '' '' \<and> q = c_dquote then unescape r
             else c # unescape cs
         | _ \<Rightarrow> c # unescape cs)
      else c # unescape cs)"


text \<open>The first flag that ends option scanning, if there is one.\<close>

definition terminal_flag :: "(char \<times> string) list \<Rightarrow> char option" where
  "terminal_flag flags =
     map_option fst
       (find (\<lambda>fa. fst fa \<noteq> CHR ''a'' \<and> fst fa \<noteq> CHR ''b'' \<and> fst fa \<noteq> CHR ''p'') flags)"

text \<open>The options as the flags a, b and p leave them (a later flag overrides an earlier one).\<close>

fun scan_options :: "(char \<times> string) list \<Rightarrow> main_options \<Rightarrow> main_options" where
  "scan_options [] opts = opts"
| "scan_options ((flag, optarg) # rest) opts =
     scan_options rest
       (if flag = CHR ''a'' then opts\<lparr>pub_outfile := optarg, got_pub_outfile := True\<rparr>
        else if flag = CHR ''b'' then opts\<lparr>priv_outfile := optarg, got_priv_outfile := True\<rparr>
        else if flag = CHR ''p'' then opts\<lparr>pass_phrase := optarg, got_pass_phrase := True\<rparr>
        else opts)"

text \<open>A positional argument that is taken as a request.\<close>

definition token_accepted :: "string \<Rightarrow> bool" where
  "token_accepted arg =
     (0 < long_to_int (fst (strtol arg))
      \<and> (snd (strtol arg) = [] \<or> hd (snd (strtol arg)) = CHR '',''))"

text \<open>
  The request served by the \<open>c\<close>-th call of \<^verbatim>\<open>generate_key\<close> goes through: a key comes back,
  the private file opens, the private key is serialized.
\<close>

definition request_succeeds :: "env \<Rightarrow> string \<times> string \<times> bool \<Rightarrow> nat \<Rightarrow> KeyNumber \<Rightarrow> bool" where
  "request_succeeds e tmpl c ki =
     (case rsa_outcome e c of
        Generated pkey \<Rightarrow>
          can_open e (private_key_filename tmpl (k_number ki))
          \<and> pem_pkcs8 e pkey (fst (pkcs8_arguments (request_pass_phrase ki)))
                             (snd (pkcs8_arguments (request_pass_phrase ki))) \<noteq> None
      | _ \<Rightarrow> False)"

fun requests_succeed :: "env \<Rightarrow> string \<times> string \<times> bool \<Rightarrow> nat \<Rightarrow> KeyNumber list \<Rightarrow> bool" where
  "requests_succeed e tmpl c [] = True"
| "requests_succeed e tmpl c (ki # rest) =
     (request_succeeds e tmpl c ki \<and> requests_succeed e tmpl (Suc c) rest)"

text \<open>The key of the \<open>c\<close>-th call of \<^verbatim>\<open>generate_key\<close>, and the private-key bytes of a request.\<close>

definition generated_key :: "env \<Rightarrow> nat \<Rightarrow> EVP_PKEY" where
  "generated_key e c = (case rsa_outcome e c of Generated pkey \<Rightarrow> pkey | _ \<Rightarrow> PKey 0)"

definition private_key_bytes :: "env \<Rightarrow> nat \<Rightarrow> KeyNumber \<Rightarrow> char list" where
  "private_key_bytes e c ki =
     (case pem_pkcs8 e (generated_key e c) (fst (pkcs8_arguments (request_pass_phrase ki)))
                       (snd (pkcs8_arguments (request_pass_phrase ki))) of
        Some data \<Rightarrow> data
      | None \<Rightarrow> [])"

text \<open>What a request that goes through adds to the events, and a run of such requests.\<close>

definition request_events ::
  "env \<Rightarrow> int \<Rightarrow> string \<times> string \<times> bool \<Rightarrow> nat \<Rightarrow> KeyNumber \<Rightarrow> event list" where
  "request_events e now tmpl c ki =
     (let n = k_number ki; f = private_key_filename tmpl n
      in [KeyGenerated (generated_key e c),
          KeyRecorded (size_t_of_int n) (generated_key e c) now,
          FileOpened f,
          FileWritten f (private_key_text f n now (private_key_bytes e c ki))])"

fun loop_events ::
  "env \<Rightarrow> int \<Rightarrow> string \<times> string \<times> bool \<Rightarrow> nat \<Rightarrow> KeyNumber list \<Rightarrow> event list" where
  "loop_events e now tmpl c [] = []"
| "loop_events e now tmpl c (ki # rest) =
     request_events e now tmpl c ki @ loop_events e now tmpl (Suc c) rest"

fun loop_registry :: "env \<Rightarrow> int \<Rightarrow> nat \<Rightarrow> KeyNumber list \<Rightarrow> key_slot list \<Rightarrow> key_slot list" where
  "loop_registry e now c [] reg = reg"
| "loop_registry e now c (ki # rest) reg =
     loop_registry e now (Suc c) rest
       (set_key (size_t_of_int (k_number ki)) (generated_key e c) now reg)"

text \<open>
  What a request that does not go through adds to the events before the process ends: the
  key and its recording when a key came back, and the opening of the private file when it
  could be opened.
\<close>

definition failed_request_events ::
  "env \<Rightarrow> int \<Rightarrow> string \<times> string \<times> bool \<Rightarrow> nat \<Rightarrow> KeyNumber \<Rightarrow> event list" where
  "failed_request_events e now tmpl c ki =
     (case rsa_outcome e c of
        Generated pkey \<Rightarrow>
          [KeyGenerated pkey, KeyRecorded (size_t_of_int (k_number ki)) pkey now]
          @ (if can_open e (private_key_filename tmpl (k_number ki))
             then [FileOpened (private_key_filename tmpl (k_number ki))] else [])
      | _ \<Rightarrow> [])"

text \<open>
  The command line is accepted: no terminal flag, at least one positional argument, both
  paths in order, every positional argument a request.  Then the options, the requests and
  the world handed to the second half of \<^verbatim>\<open>main\<close> are the following.
\<close>

definition paths_valid :: "env \<Rightarrow> main_options \<Rightarrow> bool" where
  "paths_valid e opts =
     ((if got_pub_outfile opts then get_extension (pub_outfile opts) = ''cxx''
       else (case compiled_in e of None \<Rightarrow> False | Some (keys, filename) \<Rightarrow> filename \<noteq> []))
      \<and> got_priv_outfile opts \<and> get_extension (priv_outfile opts) = ''cxx'')"

definition command_line_accepted :: "env \<Rightarrow> (char \<times> string) list \<Rightarrow> string list \<Rightarrow> bool" where
  "command_line_accepted e flags args =
     (terminal_flag flags = None \<and> args \<noteq> []
      \<and> paths_valid e (scan_options flags initial_options)
      \<and> list_all token_accepted args)"

definition accepted_options :: "env \<Rightarrow> (char \<times> string) list \<Rightarrow> main_options" where
  "accepted_options e flags =
     (let opts = scan_options flags initial_options
      in if got_pub_outfile opts then opts
         else (case compiled_in e of
                 None \<Rightarrow> opts
               | Some (keys, filename) \<Rightarrow> opts\<lparr>pub_outfile := filename\<rparr>))"

definition accepted_requests :: "(char \<times> string) list \<Rightarrow> string list \<Rightarrow> KeyNumber list" where
  "accepted_requests flags args =
     (let opts = scan_options flags initial_options
      in map (\<lambda>arg. projr (parse_key_number (got_pass_phrase opts) (pass_phrase opts) arg)) args)"

definition accepted_world :: "env \<Rightarrow> (char \<times> string) list \<Rightarrow> world \<Rightarrow> world" where
  "accepted_world e flags w =
     (if got_pub_outfile (scan_options flags initial_options) then w
      else (case compiled_in e of
              None \<Rightarrow> w
            | Some (keys, filename) \<Rightarrow> w\<lparr>registry := record_keys 0 keys (registry w)\<rparr>))"

text \<open>
  The second half of \<^verbatim>\<open>main\<close> goes through: every request does, the public file opens, and
  every key of the registry, as the requests leave it, is serialized.
\<close>

definition generation_succeeds :: "env \<Rightarrow> main_options \<Rightarrow> KeyNumber list \<Rightarrow> world \<Rightarrow> bool" where
  "generation_succeeds e opts key_numbers w =
     (let now = wall_clock e (time_calls w);
          tmpl = split_at_hash (get_fullpath_wo_extension (priv_outfile opts));
          reg = loop_registry e now (keygen_calls w) key_numbers (registry w)
      in requests_succeed e tmpl (keygen_calls w) key_numbers
         \<and> can_open e (pub_outfile opts)
         \<and> public_key_blobs e reg [0..<length reg] \<noteq> None)"




definition is_file_written :: "event \<Rightarrow> bool" where
  "is_file_written ev = (case ev of FileWritten f text \<Rightarrow> True | _ \<Rightarrow> False)"

text \<open>The line of a private-key file that carries the generation time.\<close>

definition generated_time_define :: "int \<Rightarrow> string" where
  "generated_time_define now = ''#define GENERATED_TIME '' @ show_int now @ [c_newline]"

text \<open>
  The two declarations of a blob as they stand in a generated file, for a given text between
  the quotes of the literal and a given length: what \<^verbatim>\<open>output_c_string\<close> is to write.
\<close>

definition declarations_text :: "string \<Rightarrow> nat \<Rightarrow> string \<Rightarrow> nat \<Rightarrow> string" where
  "declarations_text string_name index literal len =
     ''static const char * const '' @ string_name @ show_nat index @ ''_data ='' @ [c_newline]
     @ ''  '' @ [c_dquote] @ literal @ [c_dquote] @ '';'' @ [c_newline]
     @ ''static const unsigned int '' @ string_name @ show_nat index @ ''_length = ''
     @ show_nat len @ '';'' @ [c_newline]"

section \<open>A small world to run the tool in\<close>

text \<open>
  An environment in which every step goes through: the \<open>k\<close>-th key generated is \<open>PKey k\<close>, the
  serialized forms are short texts that tell the key and the protection asked for, every
  file opens, and the clock starts at 1000.
\<close>

definition example_env :: env where
  "example_env =
     \<lparr>rsa_outcome = (\<lambda>k. Generated (PKey k)),
      pem_pubkey = (\<lambda>pkey. case pkey of PKey k \<Rightarrow> Some (''PUB'' @ show_nat k @ [c_newline])),
      pem_pkcs8 = (\<lambda>pkey enc u. case pkey of PKey k \<Rightarrow>
                     Some (''PRIV'' @ show_nat k
                           @ (case enc of
                                None \<Rightarrow> '' clear''
                              | Some c \<Rightarrow> (case u of None \<Rightarrow> '' prompt'' | Some p \<Rightarrow> '' des3 '' @ p))
                           @ [c_newline])),
      can_open = (\<lambda>f. True),
      wall_clock = (\<lambda>k. 1000 + int k),
      compiled_in = None\<rparr>"

definition initial_world :: world where
  "initial_world = \<lparr>registry = [], events = [], cerr = [], keygen_calls = 0, time_calls = 0\<rparr>"

section \<open>File names and the private-key file of a trust level\<close>

lemma rev_takeWhile_split: "rev (dropWhile P (rev f)) @ rev (takeWhile P (rev f)) = f"
proof -
  have "rev (takeWhile P (rev f) @ dropWhile P (rev f)) = rev (rev f)"
    by (simp only: takeWhile_dropWhile_id)
  then show ?thesis by (simp only: rev_append rev_rev_ident)
qed

lemma take_of_split: "d @ b = f \<Longrightarrow> take (length f - length b) f = d"
  by auto

lemma basename_split: "get_dirname_slash f @ get_basename f = f"
proof -
  let ?P = "\<lambda>c. c \<noteq> CHR ''/''"
  have f: "rev (dropWhile ?P (rev f)) @ get_basename f = f"
    unfolding get_basename_def by (rule rev_takeWhile_split)
  from take_of_split [OF f] have "get_dirname_slash f = rev (dropWhile ?P (rev f))"
    by (simp only: get_dirname_slash_def)
  with f show ?thesis by simp
qed

lemma extension_split:
  assumes "CHR ''.'' \<in> set (get_basename f)"
  shows "get_basename_wo_extension f @ CHR ''.'' # get_extension f = get_basename f"
proof -
  let ?P = "\<lambda>c. c \<noteq> CHR ''.''"
  let ?b = "get_basename f"
  have ext: "get_extension f = rev (takeWhile ?P (rev ?b))"
    using assms by (simp add: get_extension_def)
  have ne: "dropWhile ?P (rev ?b) \<noteq> []"
    using assms by (simp add: dropWhile_eq_Nil_conv)
  have "\<not> ?P (hd (dropWhile ?P (rev ?b)))"
    using ne by (rule hd_dropWhile)
  then have "hd (dropWhile ?P (rev ?b)) = CHR ''.''" by simp
  with ne have r: "dropWhile ?P (rev ?b) = CHR ''.'' # tl (dropWhile ?P (rev ?b))"
    by (cases "dropWhile ?P (rev ?b)") simp_all
  let ?r = "tl (dropWhile ?P (rev ?b))"
  have "rev (dropWhile ?P (rev ?b)) @ rev (takeWhile ?P (rev ?b)) = ?b"
    by (rule rev_takeWhile_split)
  then have "rev (CHR ''.'' # ?r) @ get_extension f = ?b"
    using r ext by simp
  then have b: "rev ?r @ (CHR ''.'' # get_extension f) = ?b"
    by simp
  from take_of_split [OF b]
  have "take (length ?b - Suc (length (get_extension f))) ?b = rev ?r"
    by simp
  then show ?thesis
    using assms b by (simp add: get_basename_wo_extension_def)
qed

lemma fullpath_cxx:
  assumes "get_extension f = ''cxx''"
  shows "get_fullpath_wo_extension f @ ''.cxx'' = f"
proof -
  have "CHR ''.'' \<in> set (get_basename f)"
    using assms by (auto simp: get_extension_def Let_def split: if_splits)
  from extension_split [OF this] assms
  have "get_basename_wo_extension f @ ''.cxx'' = get_basename f" by simp
  then show ?thesis
    using basename_split [of f] by (simp add: get_fullpath_wo_extension_def)
qed

lemma split_at_hash_first:
  "CHR ''#'' \<notin> set p \<Longrightarrow> split_at_hash (p @ CHR ''#'' # q) = (p, q @ ''.cxx'', True)"
proof -
  assume a: "CHR ''#'' \<notin> set p"
  then have all: "\<forall>x\<in>set p. x \<noteq> CHR ''#''" by auto
  have t: "takeWhile (\<lambda>c. c \<noteq> CHR ''#'') (p @ CHR ''#'' # q) = p"
    using all by (simp add: takeWhile_append2)
  have d: "dropWhile (\<lambda>c. c \<noteq> CHR ''#'') (p @ CHR ''#'' # q) = CHR ''#'' # q"
    using all by (simp add: dropWhile_append2)
  show ?thesis by (simp add: split_at_hash_def t d)
qed

lemma split_at_hash_none:
  "CHR ''#'' \<notin> set name \<Longrightarrow> split_at_hash name = (name, ''.cxx'', False)"
  by (simp add: split_at_hash_def)

lemma template_hash_in_stem:
  assumes t: "stem @ ''.cxx'' = p @ CHR ''#'' # q"
  shows "\<exists>q'. stem = p @ CHR ''#'' # q' \<and> q = q' @ ''.cxx''"
proof -
  from t obtain us where
    us: "(stem = p @ us \<and> us @ ''.cxx'' = CHR ''#'' # q) \<or> (stem @ us = p \<and> ''.cxx'' = us @ CHR ''#'' # q)"
    by (auto simp: append_eq_append_conv2)
  then show ?thesis
  proof
    assume a: "stem = p @ us \<and> us @ ''.cxx'' = CHR ''#'' # q"
    then show ?thesis by (cases us) auto
  next
    assume "stem @ us = p \<and> ''.cxx'' = us @ CHR ''#'' # q"
    then have "CHR ''#'' \<in> set ''.cxx''"
      by (metis in_set_conv_decomp)
    then show ?thesis by simp
  qed
qed

text \<open>
  Claim C4.  Let the template given with \<^verbatim>\<open>-b\<close> carry the extension \<^verbatim>\<open>cxx\<close>, as the path
  check demands.  If the template contains a hash mark, the private-key file of trust level
  \<open>n\<close> is the template with its first hash mark replaced by the decimal digits of \<open>n\<close>.  If
  it contains none, the file is the template itself for \<open>n = 1\<close>, and the template with the
  digits of \<open>n\<close> put in front of \<^verbatim>\<open>.cxx\<close> for every other \<open>n\<close>.
\<close>

theorem private_key_filename_rule:
  assumes ext: "get_extension t = ''cxx''"
  shows "(t = p @ CHR ''#'' # q \<and> CHR ''#'' \<notin> set p \<longrightarrow>
            private_key_filename (split_at_hash (get_fullpath_wo_extension t)) n
              = p @ show_int n @ q)
       \<and> (CHR ''#'' \<notin> set t \<longrightarrow>
            private_key_filename (split_at_hash (get_fullpath_wo_extension t)) n
              = (if n = 1 then t else get_fullpath_wo_extension t @ show_int n @ ''.cxx''))"
proof (intro conjI impI)
  assume a: "t = p @ CHR ''#'' # q \<and> CHR ''#'' \<notin> set p"
  have "get_fullpath_wo_extension t @ ''.cxx'' = p @ CHR ''#'' # q"
    using fullpath_cxx [OF ext] a by simp
  from template_hash_in_stem [OF this] obtain q' where
    q': "get_fullpath_wo_extension t = p @ CHR ''#'' # q'" "q = q' @ ''.cxx''" by blast
  show "private_key_filename (split_at_hash (get_fullpath_wo_extension t)) n = p @ show_int n @ q"
    using a q' by (simp add: split_at_hash_first private_key_filename_def)
next
  assume a: "CHR ''#'' \<notin> set t"
  have t: "get_fullpath_wo_extension t @ ''.cxx'' = t" by (rule fullpath_cxx [OF ext])
  then have "set (get_fullpath_wo_extension t) \<subseteq> set t"
    by (metis set_append Un_upper1)
  with a have "CHR ''#'' \<notin> set (get_fullpath_wo_extension t)" by auto
  then show "private_key_filename (split_at_hash (get_fullpath_wo_extension t)) n
              = (if n = 1 then t else get_fullpath_wo_extension t @ show_int n @ ''.cxx'')"
    using t by (simp add: split_at_hash_none private_key_filename_def)
qed

text \<open>
  The three file names of the claim: \<^verbatim>\<open>key#.cxx\<close> at level 3, \<^verbatim>\<open>key.cxx\<close> at levels 1 and 2.
\<close>

theorem private_key_filename_rule_witness:
  "get_extension ''key#.cxx'' = ''cxx'' \<and> get_extension ''key.cxx'' = ''cxx''
   \<and> private_key_filename (split_at_hash (get_fullpath_wo_extension ''key#.cxx'')) 3 = ''key3.cxx''
   \<and> private_key_filename (split_at_hash (get_fullpath_wo_extension ''key.cxx'')) 1 = ''key.cxx''
   \<and> private_key_filename (split_at_hash (get_fullpath_wo_extension ''key.cxx'')) 2 = ''key2.cxx''"
proof -
  have e1: "get_extension ''key#.cxx'' = ''cxx''" by code_simp
  have e2: "get_extension ''key.cxx'' = ''cxx''" by code_simp
  have s3: "show_int 3 = ''3''" by code_simp
  have s2: "show_int 2 = ''2''" by code_simp
  have f2: "get_fullpath_wo_extension ''key.cxx'' = ''key''" by code_simp
  from private_key_filename_rule [OF e1, of "''key''" "''.cxx''" 3]
  have a: "private_key_filename (split_at_hash (get_fullpath_wo_extension ''key#.cxx'')) 3 = ''key3.cxx''"
    by (simp add: s3)
  from private_key_filename_rule [OF e2, of _ _ 1]
  have b: "private_key_filename (split_at_hash (get_fullpath_wo_extension ''key.cxx'')) 1 = ''key.cxx''"
    by simp
  from private_key_filename_rule [OF e2, of _ _ 2]
  have c: "private_key_filename (split_at_hash (get_fullpath_wo_extension ''key.cxx'')) 2 = ''key2.cxx''"
    by (simp add: s2 f2)
  from e1 e2 a b c show ?thesis by blast
qed

section \<open>Decimal numerals are read back by \<^verbatim>\<open>strtol\<close>\<close>

lemma of_char_dec_digit: "d < 10 \<Longrightarrow> (of_char (dec_digit d) :: nat) = 48 + d"
  by (simp add: dec_digit_def of_char_of)

lemma digit_in_base_dec: "d < 10 \<Longrightarrow> digit_in_base 10 (dec_digit d) = Some d"
  by (simp add: digit_in_base_def digit_value_def of_char_dec_digit)

lemma digit_in_base_comma: "digit_in_base b CHR '','' = None"
  by (simp add: digit_in_base_def digit_value_def)

lemma dec_digit_neq:
  assumes "d < 10"
  shows "dec_digit d \<noteq> CHR ''-''" "dec_digit d \<noteq> CHR ''+''" "dec_digit d \<noteq> CHR '',''"
    "\<not> isspace (dec_digit d)" "dec_digit d = CHR ''0'' \<longleftrightarrow> d = 0"
proof -
  have k: "(of_char (dec_digit d) :: nat) = 48 + d" by (rule of_char_dec_digit [OF assms])
  show "dec_digit d \<noteq> CHR ''-''" using k by auto
  show "dec_digit d \<noteq> CHR ''+''" using k by auto
  show "dec_digit d \<noteq> CHR '',''" using k by auto
  show "\<not> isspace (dec_digit d)" using k assms by (simp add: isspace_def)
  show "dec_digit d = CHR ''0'' \<longleftrightarrow> d = 0"
  proof
    assume "dec_digit d = CHR ''0''"
    then have "(of_char (dec_digit d) :: nat) = of_char CHR ''0''" by simp
    with k show "d = 0" by simp
  next
    have "dec_digit 0 = CHR ''0''" by code_simp
    moreover assume "d = 0"
    ultimately show "dec_digit d = CHR ''0''" by simp
  qed
qed


lemma show_nat_hd: "\<exists>d r. show_nat n = dec_digit d # r \<and> d < 10 \<and> (d = 0 \<longleftrightarrow> n = 0)"
proof (induction n rule: show_nat.induct)
  case (1 n)
  show ?case
  proof (cases "n < 10")
    case True
    then show ?thesis by (subst show_nat.simps) auto
  next
    case False
    from "1" [OF False] obtain d r where
      dr: "show_nat (n div 10) = dec_digit d # r" "d < 10" "d = 0 \<longleftrightarrow> n div 10 = 0"
      by auto
    from False have "n div 10 \<noteq> 0" by simp
    with dr False show ?thesis
      by (subst show_nat.simps) auto
  qed
qed

lemma strtol_digits_show_nat:
  "strtol_digits 10 acc (show_nat n @ rest)
     = strtol_digits 10 (acc * 10 ^ length (show_nat n) + int n) rest"
proof (induction n arbitrary: acc rest rule: show_nat.induct)
  case (1 n)
  show ?case
  proof (cases "n < 10")
    case True
    then show ?thesis
      by (subst (1 2) show_nat.simps) (simp add: digit_in_base_dec)
  next
    case False
    have m: "n mod 10 < 10" by simp
    have "strtol_digits 10 acc (show_nat n @ rest)
            = strtol_digits 10 acc (show_nat (n div 10) @ (dec_digit (n mod 10) # rest))"
      using False by (subst show_nat.simps) simp
    also have "\<dots> = strtol_digits 10 (acc * 10 ^ length (show_nat (n div 10)) + int (n div 10))
                        (dec_digit (n mod 10) # rest)"
      using False by (rule "1.IH")
    also have "\<dots> = strtol_digits 10
                        ((acc * 10 ^ length (show_nat (n div 10)) + int (n div 10)) * 10 + int (n mod 10))
                        rest"
      by (simp add: digit_in_base_dec [OF m])
    also have "(acc * 10 ^ length (show_nat (n div 10)) + int (n div 10)) * 10 + int (n mod 10)
                 = acc * 10 ^ length (show_nat n) + int n"
    proof -
      have l: "length (show_nat n) = Suc (length (show_nat (n div 10)))"
        using False by (subst show_nat.simps) simp
      have "int (n div 10) * 10 + int (n mod 10) = int n"
        by (metis mult.commute of_nat_add of_nat_mult of_nat_numeral div_mult_mod_eq mult.commute)
      then show ?thesis by (simp add: l algebra_simps)
    qed
    finally show ?thesis .
  qed
qed

lemma strtol_digits_stop:
  "rest = [] \<or> hd rest = CHR '','' \<Longrightarrow> strtol_digits b acc rest = (acc, rest)"
  by (cases rest) (auto simp: digit_in_base_comma)

lemma long_to_int_in_range:
  "- (2 ^ 31) \<le> n \<Longrightarrow> n < 2 ^ 31 \<Longrightarrow> long_to_int n = n"
  by (simp add: long_to_int_def sint_sbintrunc' signed_take_bit_int_eq_self)

lemma clamp_long_in_range:
  "- (2 ^ 63) \<le> n \<Longrightarrow> n < 2 ^ 63 \<Longrightarrow> clamp_long n = n"
  by (simp add: clamp_long_def LONG_MIN_def LONG_MAX_def)

lemma strtol_base_show_nat:
  assumes rest: "rest = [] \<or> hd rest = CHR '',''"
  shows "\<exists>b c. strtol_base (show_nat m @ rest) = (b, show_nat m @ rest)
           \<and> show_nat m @ rest = c # tl (show_nat m @ rest) \<and> digit_in_base b c \<noteq> None
           \<and> strtol_digits b 0 (show_nat m @ rest) = (int m, rest)"
proof -
  obtain d r where dr: "show_nat m = dec_digit d # r" "d < 10" "d = 0 \<longleftrightarrow> m = 0"
    using show_nat_hd by blast
  show ?thesis
  proof (cases "m = 0")
    case True
    have z: "show_nat 0 = ''0''" by code_simp
    have b: "strtol_base (CHR ''0'' # rest) = (8, CHR ''0'' # rest)"
      using rest by (cases rest) (auto simp: strtol_base_def split: list.splits)
    have d0: "digit_in_base 8 CHR ''0'' = Some 0"
      by (simp add: digit_in_base_def digit_value_def)
    have "strtol_digits 8 0 (CHR ''0'' # rest) = (0, rest)"
      using strtol_digits_stop [OF rest] by (simp add: d0)
    with True z b d0 show ?thesis by simp
  next
    case False
    with dr have "dec_digit d \<noteq> CHR ''0''" using dec_digit_neq(5) [of d] by simp
    then have b: "strtol_base (show_nat m @ rest) = (10, show_nat m @ rest)"
      using dr by (simp add: strtol_base_def)
    have "strtol_digits 10 0 (show_nat m @ rest) = (int m, rest)"
      using strtol_digits_show_nat [of 0 m rest] strtol_digits_stop [OF rest] by simp
    with b dr show ?thesis by (simp add: digit_in_base_dec)
  qed
qed

lemma strtol_parts:
  assumes "strtol_sign (dropWhile isspace nptr) = (neg, s2)"
    and "strtol_base s2 = (b, s3)"
    and "s3 = c # cs"
    and "digit_in_base b c \<noteq> None"
    and "strtol_digits b 0 s3 = (v, rest)"
  shows "strtol nptr = (clamp_long (if neg then - v else v), rest)"
  using assms unfolding strtol_def by (auto simp del: strtol_digits.simps)

lemma strtol_show_int:
  assumes rest: "rest = [] \<or> hd rest = CHR '',''"
  shows "strtol (show_int n @ rest) = (clamp_long n, rest)"
proof -
  define m where "m = nat \<bar>n\<bar>"
  obtain b c where
    bc: "strtol_base (show_nat m @ rest) = (b, show_nat m @ rest)"
        "show_nat m @ rest = c # tl (show_nat m @ rest)" "digit_in_base b c \<noteq> None"
        "strtol_digits b 0 (show_nat m @ rest) = (int m, rest)"
    using strtol_base_show_nat [OF rest] by blast
  obtain d r where dr: "show_nat m = dec_digit d # r" "d < 10"
    using show_nat_hd by blast
  show ?thesis
  proof (cases "n < 0")
    case True
    then have s: "show_int n = CHR ''-'' # show_nat m" by (simp add: show_int_def m_def)
    have sp: "\<not> isspace CHR ''-''" by (simp add: isspace_def)
    have sg: "strtol_sign (CHR ''-'' # show_nat m @ rest) = (True, show_nat m @ rest)"
      by (simp add: strtol_sign_def)
    have sg': "strtol_sign (dropWhile isspace (CHR ''-'' # show_nat m @ rest)) = (True, show_nat m @ rest)"
      using sp sg by simp
    have "strtol (CHR ''-'' # show_nat m @ rest) = (clamp_long (- int m), rest)"
      using strtol_parts [OF sg' bc(1) bc(2) bc(3) bc(4)] by simp
    with s True show ?thesis by (simp add: m_def)
  next
    case False
    then have s: "show_int n = show_nat m" by (simp add: show_int_def m_def)
    have sp: "dropWhile isspace (show_nat m @ rest) = show_nat m @ rest"
      using dr dec_digit_neq(4) [of d] by simp
    have sg: "strtol_sign (show_nat m @ rest) = (False, show_nat m @ rest)"
      using dr dec_digit_neq(1,2) [of d] by (simp add: strtol_sign_def)
    have sg': "strtol_sign (dropWhile isspace (show_nat m @ rest)) = (False, show_nat m @ rest)"
      using sp sg by simp
    have "strtol (show_nat m @ rest) = (clamp_long (int m), rest)"
      using strtol_parts [OF sg' bc(1) bc(2) bc(3) bc(4)] by simp
    with s False show ?thesis by (simp add: m_def)
  qed
qed




section \<open>Reading one trust level\<close>

lemma parse_key_number_cases:
  assumes "strtol arg = (v, e)"
  shows "parse_key_number g gp arg =
     (if e \<noteq> [] \<and> hd e \<noteq> CHR '','' then Inl (not_integer_message arg)
      else if long_to_int v \<le> 0 then Inl (not_positive_message (long_to_int v))
      else Inr \<lparr>k_number = long_to_int v,
                k_got_pass_phrase = (if e = [] then g else True),
                k_pass_phrase = (if e = [] then gp else tl e)\<rparr>)"
  using assms by (cases e) (simp_all add: parse_key_number_def)

lemma sublist_not_integer_message: "sublist arg (not_integer_message arg)"
  unfolding not_integer_message_def sublist_def by (metis append.assoc)

lemma sublist_not_positive_message: "sublist (show_int k) (not_positive_message k)"
  unfolding not_positive_message_def sublist_def by blast

text \<open>
  Claim C2, as stated, at the token \<^verbatim>\<open>00\<close>: the token is rejected, and the message printed
  is the one of source line 423, which prints the number read, \<^verbatim>\<open>0\<close>; the token as it was
  typed, \<^verbatim>\<open>00\<close>, occurs nowhere in it.
\<close>

theorem trust_level_literal_token_counterexample:
  "parse_key_number False [] ''00''
     = Inl (''Key numbers must be greater than 0; you specified 0.'' @ [c_newline])
   \<and> \<not> sublist ''00'' (''Key numbers must be greater than 0; you specified 0.'' @ [c_newline])"
  by code_simp

text \<open>
  Claim C2, amended.  Take a positional argument in which \<^verbatim>\<open>strtol\<close> reads an integer \<open>n\<close>
  within the range of \<^verbatim>\<open>int\<close> and leaves nothing, or text that starts with a comma; the
  decimal numeral of such an \<open>n\<close>, alone or followed by a comma and a pass phrase, is such an
  argument.  It is accepted exactly when \<open>0 < n\<close>, and then the request carries \<open>n\<close>.  When \<open>n\<close>
  is 0 or negative it is rejected with a message that contains the decimal digits of \<open>n\<close>: the
  number read, not the argument as it was typed.  An argument with other text after the
  number is rejected with a message that contains the argument as it was typed.  Numbers
  outside the range of \<^verbatim>\<open>int\<close> are not spoken of.
\<close>

theorem trust_level_parsing:
  "(- (2 ^ 31) \<le> fst (strtol arg) \<and> fst (strtol arg) < 2 ^ 31
      \<and> (snd (strtol arg) = [] \<or> hd (snd (strtol arg)) = CHR '','') \<longrightarrow>
        ((\<exists>key. parse_key_number g gp arg = Inr key) \<longleftrightarrow> 0 < fst (strtol arg))
        \<and> (0 < fst (strtol arg) \<longrightarrow>
             k_number (projr (parse_key_number g gp arg)) = fst (strtol arg))
        \<and> (fst (strtol arg) \<le> 0 \<longrightarrow>
             parse_key_number g gp arg = Inl (not_positive_message (fst (strtol arg)))
             \<and> sublist (show_int (fst (strtol arg))) (not_positive_message (fst (strtol arg)))))
   \<and> (- (2 ^ 31) \<le> n \<and> n < 2 ^ 31 \<and> (rest = [] \<or> hd rest = CHR '','') \<longrightarrow>
        strtol (show_int n @ rest) = (n, rest)
        \<and> ((\<exists>key. parse_key_number g gp (show_int n @ rest) = Inr key) \<longleftrightarrow> 0 < n)
        \<and> (0 < n \<longrightarrow> k_number (projr (parse_key_number g gp (show_int n @ rest))) = n)
        \<and> (n \<le> 0 \<longrightarrow>
             parse_key_number g gp (show_int n @ rest) = Inl (not_positive_message n)
             \<and> sublist (show_int n) (not_positive_message n)))
   \<and> (snd (strtol arg) \<noteq> [] \<and> hd (snd (strtol arg)) \<noteq> CHR '','' \<longrightarrow>
        parse_key_number g gp arg = Inl (not_integer_message arg)
        \<and> sublist arg (not_integer_message arg))"
proof -
  obtain v e where ve: "strtol arg = (v, e)" by (cases "strtol arg")
  note pc = parse_key_number_cases [OF ve, of g gp]
  have a: "- (2 ^ 31) \<le> fst (strtol arg) \<and> fst (strtol arg) < 2 ^ 31
      \<and> (snd (strtol arg) = [] \<or> hd (snd (strtol arg)) = CHR '','') \<longrightarrow>
        ((\<exists>key. parse_key_number g gp arg = Inr key) \<longleftrightarrow> 0 < fst (strtol arg))
        \<and> (0 < fst (strtol arg) \<longrightarrow>
             k_number (projr (parse_key_number g gp arg)) = fst (strtol arg))
        \<and> (fst (strtol arg) \<le> 0 \<longrightarrow>
             parse_key_number g gp arg = Inl (not_positive_message (fst (strtol arg)))
             \<and> sublist (show_int (fst (strtol arg))) (not_positive_message (fst (strtol arg))))"
  proof
    assume h: "- (2 ^ 31) \<le> fst (strtol arg) \<and> fst (strtol arg) < 2 ^ 31
      \<and> (snd (strtol arg) = [] \<or> hd (snd (strtol arg)) = CHR '','')"
    with ve have "- (2 ^ 31) \<le> v" "v < 2 ^ 31" by simp_all
    then have l: "long_to_int v = v" by (rule long_to_int_in_range)
    from h ve have r: "e = [] \<or> hd e = CHR '',''" by simp
    show "((\<exists>key. parse_key_number g gp arg = Inr key) \<longleftrightarrow> 0 < fst (strtol arg))
        \<and> (0 < fst (strtol arg) \<longrightarrow>
             k_number (projr (parse_key_number g gp arg)) = fst (strtol arg))
        \<and> (fst (strtol arg) \<le> 0 \<longrightarrow>
             parse_key_number g gp arg = Inl (not_positive_message (fst (strtol arg)))
             \<and> sublist (show_int (fst (strtol arg))) (not_positive_message (fst (strtol arg))))"
      using r by (auto simp: pc ve l sublist_not_positive_message)
  qed
  have c: "snd (strtol arg) \<noteq> [] \<and> hd (snd (strtol arg)) \<noteq> CHR '','' \<longrightarrow>
        parse_key_number g gp arg = Inl (not_integer_message arg)
        \<and> sublist arg (not_integer_message arg)"
    using ve by (simp add: pc sublist_not_integer_message)
  have b: "- (2 ^ 31) \<le> n \<and> n < 2 ^ 31 \<and> (rest = [] \<or> hd rest = CHR '','') \<longrightarrow>
        strtol (show_int n @ rest) = (n, rest)
        \<and> ((\<exists>key. parse_key_number g gp (show_int n @ rest) = Inr key) \<longleftrightarrow> 0 < n)
        \<and> (0 < n \<longrightarrow> k_number (projr (parse_key_number g gp (show_int n @ rest))) = n)
        \<and> (n \<le> 0 \<longrightarrow>
             parse_key_number g gp (show_int n @ rest) = Inl (not_positive_message n)
             \<and> sublist (show_int n) (not_positive_message n))"
  proof
    assume h: "- (2 ^ 31) \<le> n \<and> n < 2 ^ 31 \<and> (rest = [] \<or> hd rest = CHR '','')"
    then have r: "rest = [] \<or> hd rest = CHR '',''" by simp
    from h have "clamp_long n = n" by (intro clamp_long_in_range) simp_all
    with strtol_show_int [OF r, of n] have s: "strtol (show_int n @ rest) = (n, rest)" by simp
    from h have l: "long_to_int n = n" by (intro long_to_int_in_range) simp_all
    show "strtol (show_int n @ rest) = (n, rest)
        \<and> ((\<exists>key. parse_key_number g gp (show_int n @ rest) = Inr key) \<longleftrightarrow> 0 < n)
        \<and> (0 < n \<longrightarrow> k_number (projr (parse_key_number g gp (show_int n @ rest))) = n)
        \<and> (n \<le> 0 \<longrightarrow>
             parse_key_number g gp (show_int n @ rest) = Inl (not_positive_message n)
             \<and> sublist (show_int n) (not_positive_message n))"
      using r s by (auto simp: parse_key_number_cases [OF s] l sublist_not_positive_message)
  qed
  from a b c show ?thesis by blast
qed

text \<open>
  The theorem at \<^verbatim>\<open>3,x\<close> and \<^verbatim>\<open>0x10\<close> (accepted), \<^verbatim>\<open>-5\<close> and \<^verbatim>\<open>00\<close> (not positive) and
  \<^verbatim>\<open>7up\<close> (not an integer).
\<close>

theorem trust_level_parsing_witness:
  "(\<exists>key. parse_key_number False [] ''3,x'' = Inr key)
   \<and> k_number (projr (parse_key_number False [] ''3,x'')) = 3
   \<and> parse_key_number False [] ''-5'' = Inl (not_positive_message (- 5))
   \<and> sublist ''-5'' (not_positive_message (- 5))
   \<and> parse_key_number False [] ''7up'' = Inl (not_integer_message ''7up'')
   \<and> sublist ''7up'' (not_integer_message ''7up'')
   \<and> parse_key_number False [] ''00'' = Inl (not_positive_message 0)
   \<and> sublist ''0'' (not_positive_message 0)
   \<and> (\<exists>key. parse_key_number False [] ''0x10'' = Inr key)
   \<and> k_number (projr (parse_key_number False [] ''0x10'')) = 16"
proof -
  have s3: "show_int 3 = ''3''" by code_simp
  have s5: "show_int (- 5) = ''-5''" by code_simp
  have s0: "show_int 0 = ''0''" by code_simp
  have t7: "strtol ''7up'' = (7, ''up'')" by code_simp
  have t0: "strtol ''00'' = (0, [])" by code_simp
  have tx: "strtol ''0x10'' = (16, [])" by code_simp
  from trust_level_parsing [where g = False and gp = "[]" and n = 3 and rest = "'',x''",
      THEN conjunct2, THEN conjunct1]
  have a: "(\<exists>key. parse_key_number False [] ''3,x'' = Inr key)
           \<and> k_number (projr (parse_key_number False [] ''3,x'')) = 3"
    by (simp add: s3)
  from trust_level_parsing [where g = False and gp = "[]" and n = "- 5" and rest = "[]",
      THEN conjunct2, THEN conjunct1]
  have b: "parse_key_number False [] ''-5'' = Inl (not_positive_message (- 5))
           \<and> sublist ''-5'' (not_positive_message (- 5))"
    by (simp add: s5)
  from trust_level_parsing [where g = False and gp = "[]" and arg = "''7up''",
      THEN conjunct2, THEN conjunct2]
  have c: "parse_key_number False [] ''7up'' = Inl (not_integer_message ''7up'')
           \<and> sublist ''7up'' (not_integer_message ''7up'')"
    by (simp add: t7)
  from trust_level_parsing [where g = False and gp = "[]" and arg = "''00''", THEN conjunct1]
  have d: "parse_key_number False [] ''00'' = Inl (not_positive_message 0)
           \<and> sublist ''0'' (not_positive_message 0)"
    by (simp add: t0 s0)
  from trust_level_parsing [where g = False and gp = "[]" and arg = "''0x10''", THEN conjunct1]
  have e: "(\<exists>key. parse_key_number False [] ''0x10'' = Inr key)
           \<and> k_number (projr (parse_key_number False [] ''0x10'')) = 16"
    by (simp add: tx)
  from a b c d e show ?thesis by blast
qed

text \<open>
  Outside the range of \<^verbatim>\<open>int\<close> the conversion of source line 410 decides, and nothing checks
  it: \<^verbatim>\<open>4294967296\<close> is turned away as 0, and \<^verbatim>\<open>-4294967295\<close> is taken as key number 1.
\<close>

lemma trust_level_int_narrowing:
  "parse_key_number False [] ''4294967296''
     = Inl (''Key numbers must be greater than 0; you specified 0.'' @ [c_newline])
   \<and> parse_key_number False [] ''-4294967295''
       = Inr \<lparr>k_number = 1, k_got_pass_phrase = False, k_pass_phrase = []\<rparr>"
  by code_simp

section \<open>The public-key table\<close>




lemma length_set_key: "length (set_key n pkey t reg) = max (length reg) (Suc n)"
  by (auto simp: set_key_def)

lemma nth_set_key:
  "i < max (length reg) (Suc n) \<Longrightarrow>
   set_key n pkey t reg ! i
     = (if i = n then Some (pkey, t) else if i < length reg then reg ! i else None)"
  by (auto simp: set_key_def nth_list_update nth_append)



section \<open>Options and paths\<close>

lemma terminal_flag_Nil: "terminal_flag [] = None"
  by (simp add: terminal_flag_def)

lemma terminal_flag_Cons:
  "terminal_flag ((c, a) # rest)
     = (if c = CHR ''a'' \<or> c = CHR ''b'' \<or> c = CHR ''p'' then terminal_flag rest else Some c)"
  by (simp add: terminal_flag_def)

lemma parse_flags_eq:
  "parse_flags flags opts w
     = (case terminal_flag flags of
          None \<Rightarrow> Inr (scan_options flags opts, w)
        | Some c \<Rightarrow> if c = CHR ''h'' then Inl (0, usage w) else Inl (1, w))"
  by (induction flags opts w rule: parse_flags.induct)
    (auto simp: terminal_flag_Nil terminal_flag_Cons split: option.splits)

lemma scan_options_got_pub:
  "got_pub_outfile opts \<Longrightarrow> got_pub_outfile (scan_options flags opts)"
  by (induction flags opts rule: scan_options.induct) simp_all

lemma scan_options_pub:
  "\<not> got_pub_outfile (scan_options flags opts) \<Longrightarrow>
   pub_outfile (scan_options flags opts) = pub_outfile opts"
proof (induction flags opts rule: scan_options.induct)
  case (1 opts)
  then show ?case by simp
next
  case (2 flag optarg rest opts)
  show ?case
  proof (cases "flag = CHR ''a''")
    case True
    have "got_pub_outfile (scan_options rest (opts\<lparr>pub_outfile := optarg, got_pub_outfile := True\<rparr>))"
      by (rule scan_options_got_pub) simp
    with 2 True show ?thesis by simp
  next
    case False
    with 2 show ?thesis by (auto split: if_splits)
  qed
qed

lemma validate_public_path_eq:
  "validate_public_path e opts w
     = (if got_pub_outfile opts then
          (if get_extension (pub_outfile opts) = ''cxx'' then Inr (opts, w)
           else Inl (1, put_cerr (public_extension_message (pub_outfile opts)) w))
        else
          (case compiled_in e of
             None \<Rightarrow>
               if pub_outfile opts = [] then Inl (1, put_cerr no_public_file_message w)
               else Inr (opts, w)
           | Some (prc_pubkeys, filename) \<Rightarrow>
               if filename = []
               then Inl (1, put_cerr no_public_file_message
                              (w\<lparr>registry := record_keys 0 prc_pubkeys (registry w)\<rparr>))
               else Inr (opts\<lparr>pub_outfile := filename\<rparr>,
                         w\<lparr>registry := record_keys 0 prc_pubkeys (registry w)\<rparr>)))"
  by (simp add: validate_public_path_def split: option.splits)

lemma validate_private_path_eq:
  "validate_private_path opts w
     = (if \<not> got_priv_outfile opts then Inl (1, put_cerr no_private_file_message w)
        else if get_extension (priv_outfile opts) \<noteq> ''cxx''
        then Inl (1, put_cerr (private_extension_message (priv_outfile opts)) w)
        else Inr ((), w))"
  by (simp add: validate_private_path_def)

lemma parse_command_line_eq:
  "parse_command_line e flags args w
     = (case terminal_flag flags of
          Some c \<Rightarrow> if c = CHR ''h'' then Inl (0, usage w) else Inl (1, w)
        | None \<Rightarrow>
            if args = [] then Inl (1, usage w)
            else
              (case validate_public_path e (scan_options flags initial_options) w of
                 Inl stop \<Rightarrow> Inl stop
               | Inr (opts2, w2) \<Rightarrow>
                   (case validate_private_path opts2 w2 of
                      Inl stop \<Rightarrow> Inl stop
                    | Inr (u, w3) \<Rightarrow>
                        (case parse_key_numbers (got_pass_phrase opts2) (pass_phrase opts2) args of
                           Inl msg \<Rightarrow> Inl (1, put_cerr (Text msg) w3)
                         | Inr key_numbers \<Rightarrow> Inr ((opts2, key_numbers), w3)))))"
  by (simp add: parse_command_line_def parse_flags_eq split: option.splits)

lemma parse_command_line_status:
  "parse_command_line e flags args w = Inl (s, w') \<Longrightarrow>
   s = (if terminal_flag flags = Some CHR ''h'' then 0 else 1)"
  by (auto simp: parse_command_line_eq validate_public_path_eq validate_private_path_eq
      split: option.splits if_splits sum.splits prod.splits)

text \<open>
  Claim C7.  Once option scanning has ended without a terminal flag and there is a
  positional argument, the run ends with status 1 when the path given with \<^verbatim>\<open>-a\<close> does not
  have the extension \<^verbatim>\<open>cxx\<close>, when \<^verbatim>\<open>-a\<close> is missing and no public-key file name is compiled
  in (none at all, or an empty one), when \<^verbatim>\<open>-b\<close> is missing, and when the path given with
  \<^verbatim>\<open>-b\<close> does not have the extension \<^verbatim>\<open>cxx\<close>.  When the command line is accepted, the private
  template is the one given with \<^verbatim>\<open>-b\<close> and ends in \<^verbatim>\<open>cxx\<close>; the public path is the one given
  with \<^verbatim>\<open>-a\<close>, ending in \<^verbatim>\<open>cxx\<close>, or, without \<^verbatim>\<open>-a\<close>, the compiled-in file name, the
  compiled-in keys having been recorded in the registry.
\<close>

theorem path_validation:
  "(terminal_flag flags = None \<and> args \<noteq> []
      \<and> got_pub_outfile (scan_options flags initial_options)
      \<and> get_extension (pub_outfile (scan_options flags initial_options)) \<noteq> ''cxx'' \<longrightarrow>
      fst (main e flags args w) = 1)
   \<and> (terminal_flag flags = None \<and> args \<noteq> []
      \<and> \<not> got_pub_outfile (scan_options flags initial_options)
      \<and> (compiled_in e = None \<or> (\<exists>keys. compiled_in e = Some (keys, []))) \<longrightarrow>
      fst (main e flags args w) = 1)
   \<and> (terminal_flag flags = None \<and> args \<noteq> []
      \<and> \<not> got_priv_outfile (scan_options flags initial_options) \<longrightarrow>
      fst (main e flags args w) = 1)
   \<and> (terminal_flag flags = None \<and> args \<noteq> []
      \<and> get_extension (priv_outfile (scan_options flags initial_options)) \<noteq> ''cxx'' \<longrightarrow>
      fst (main e flags args w) = 1)
   \<and> (parse_command_line e flags args w = Inr ((opts2, key_numbers), w3) \<longrightarrow>
        got_priv_outfile opts2
        \<and> priv_outfile opts2 = priv_outfile (scan_options flags initial_options)
        \<and> get_extension (priv_outfile opts2) = ''cxx''
        \<and> (if got_pub_outfile (scan_options flags initial_options)
            then pub_outfile opts2 = pub_outfile (scan_options flags initial_options)
                 \<and> get_extension (pub_outfile opts2) = ''cxx''
                 \<and> registry w3 = registry w
            else \<exists>keys filename. compiled_in e = Some (keys, filename) \<and> filename \<noteq> []
                 \<and> pub_outfile opts2 = filename
                 \<and> registry w3 = record_keys 0 keys (registry w)))"
proof -
  let ?o = "scan_options flags initial_options"
  have p: "\<not> got_pub_outfile ?o \<Longrightarrow> pub_outfile ?o = []"
    using scan_options_pub [of flags initial_options] by (simp add: initial_options_def)
  have stop: "\<And>s w'. parse_command_line e flags args w = Inl (s, w') \<Longrightarrow>
                terminal_flag flags = None \<Longrightarrow> fst (main e flags args w) = 1"
    using parse_command_line_status [of e flags args w] by (auto simp: main_def)
  have a: "terminal_flag flags = None \<and> args \<noteq> [] \<and> got_pub_outfile ?o
      \<and> get_extension (pub_outfile ?o) \<noteq> ''cxx'' \<longrightarrow> fst (main e flags args w) = 1"
  proof
    assume h: "terminal_flag flags = None \<and> args \<noteq> [] \<and> got_pub_outfile ?o
      \<and> get_extension (pub_outfile ?o) \<noteq> ''cxx''"
    have "\<exists>s w'. parse_command_line e flags args w = Inl (s, w')"
      using h by (auto simp: parse_command_line_eq validate_public_path_eq)
    with stop h show "fst (main e flags args w) = 1" by blast
  qed
  have b: "terminal_flag flags = None \<and> args \<noteq> [] \<and> \<not> got_pub_outfile ?o
      \<and> (compiled_in e = None \<or> (\<exists>keys. compiled_in e = Some (keys, []))) \<longrightarrow>
      fst (main e flags args w) = 1"
  proof
    assume h: "terminal_flag flags = None \<and> args \<noteq> [] \<and> \<not> got_pub_outfile ?o
      \<and> (compiled_in e = None \<or> (\<exists>keys. compiled_in e = Some (keys, [])))"
    have "\<exists>s w'. parse_command_line e flags args w = Inl (s, w')"
      using h p by (auto simp: parse_command_line_eq validate_public_path_eq)
    with stop h show "fst (main e flags args w) = 1" by blast
  qed
  have c: "terminal_flag flags = None \<and> args \<noteq> [] \<and> \<not> got_priv_outfile ?o \<longrightarrow>
      fst (main e flags args w) = 1"
  proof
    assume h: "terminal_flag flags = None \<and> args \<noteq> [] \<and> \<not> got_priv_outfile ?o"
    have "\<exists>s w'. parse_command_line e flags args w = Inl (s, w')"
      using h by (auto simp: parse_command_line_eq validate_public_path_eq
          validate_private_path_eq split: option.splits)
    with stop h show "fst (main e flags args w) = 1" by blast
  qed
  have d: "terminal_flag flags = None \<and> args \<noteq> []
      \<and> get_extension (priv_outfile ?o) \<noteq> ''cxx'' \<longrightarrow> fst (main e flags args w) = 1"
  proof
    assume h: "terminal_flag flags = None \<and> args \<noteq> []
      \<and> get_extension (priv_outfile ?o) \<noteq> ''cxx''"
    have "\<exists>s w'. parse_command_line e flags args w = Inl (s, w')"
      using h by (auto simp: parse_command_line_eq validate_public_path_eq
          validate_private_path_eq split: option.splits)
    with stop h show "fst (main e flags args w) = 1" by blast
  qed
  have f: "parse_command_line e flags args w = Inr ((opts2, key_numbers), w3) \<longrightarrow>
        got_priv_outfile opts2
        \<and> priv_outfile opts2 = priv_outfile ?o
        \<and> get_extension (priv_outfile opts2) = ''cxx''
        \<and> (if got_pub_outfile ?o
            then pub_outfile opts2 = pub_outfile ?o
                 \<and> get_extension (pub_outfile opts2) = ''cxx''
                 \<and> registry w3 = registry w
            else \<exists>keys filename. compiled_in e = Some (keys, filename) \<and> filename \<noteq> []
                 \<and> pub_outfile opts2 = filename
                 \<and> registry w3 = record_keys 0 keys (registry w))"
    using p by (auto simp: parse_command_line_eq validate_public_path_eq
          validate_private_path_eq split: option.splits if_splits sum.splits)
  from a b c d f show ?thesis by blast
qed

text \<open>
  The four fatal cases on concrete command lines, and a command line without \<^verbatim>\<open>-a\<close> that is
  accepted because a public-key file name is compiled in.
\<close>

theorem path_validation_witness:
  "fst (main example_env [(CHR ''a'', ''pub.txt''), (CHR ''b'', ''priv#.cxx'')] [''1''] initial_world) = 1
   \<and> fst (main example_env [(CHR ''b'', ''priv#.cxx'')] [''1''] initial_world) = 1
   \<and> fst (main example_env [(CHR ''a'', ''pub.cxx'')] [''1''] initial_world) = 1
   \<and> fst (main example_env [(CHR ''a'', ''pub.cxx''), (CHR ''b'', ''priv#.txt'')] [''1''] initial_world) = 1
   \<and> parse_command_line (example_env\<lparr>compiled_in := Some ([None, Some (PKey 9, 5)], ''old.cxx'')\<rparr>)
        [(CHR ''b'', ''priv#.cxx'')] [''1''] initial_world
       = Inr ((initial_options\<lparr>pub_outfile := ''old.cxx'', priv_outfile := ''priv#.cxx'',
                                got_priv_outfile := True\<rparr>,
               [\<lparr>k_number = 1, k_got_pass_phrase = False, k_pass_phrase = []\<rparr>]),
              initial_world\<lparr>registry := [None, Some (PKey 9, 5)]\<rparr>)
   \<and> get_extension ''priv#.cxx'' = ''cxx''"
proof -
  let ?f1 = "[(CHR ''a'', ''pub.txt''), (CHR ''b'', ''priv#.cxx'')]"
  let ?f2 = "[(CHR ''b'', ''priv#.cxx'')]"
  let ?f3 = "[(CHR ''a'', ''pub.cxx'')]"
  let ?f4 = "[(CHR ''a'', ''pub.cxx''), (CHR ''b'', ''priv#.txt'')]"
  let ?e5 = "example_env\<lparr>compiled_in := Some ([None, Some (PKey 9, 5)], ''old.cxx'')\<rparr>"
  have h1: "terminal_flag ?f1 = None \<and> [''1''] \<noteq> []
      \<and> got_pub_outfile (scan_options ?f1 initial_options)
      \<and> get_extension (pub_outfile (scan_options ?f1 initial_options)) \<noteq> ''cxx''"
    by code_simp
  have h2: "terminal_flag ?f2 = None \<and> [''1''] \<noteq> []
      \<and> \<not> got_pub_outfile (scan_options ?f2 initial_options)
      \<and> (compiled_in example_env = None \<or> (\<exists>keys. compiled_in example_env = Some (keys, [])))"
    by (simp add: terminal_flag_Cons terminal_flag_Nil initial_options_def example_env_def)
  have h3: "terminal_flag ?f3 = None \<and> [''1''] \<noteq> []
      \<and> \<not> got_priv_outfile (scan_options ?f3 initial_options)"
    by code_simp
  have h4: "terminal_flag ?f4 = None \<and> [''1''] \<noteq> []
      \<and> get_extension (priv_outfile (scan_options ?f4 initial_options)) \<noteq> ''cxx''"
    by code_simp
  have r5: "parse_command_line ?e5 ?f2 [''1''] initial_world
       = Inr ((initial_options\<lparr>pub_outfile := ''old.cxx'', priv_outfile := ''priv#.cxx'',
                                got_priv_outfile := True\<rparr>,
               [\<lparr>k_number = 1, k_got_pass_phrase = False, k_pass_phrase = []\<rparr>]),
              initial_world\<lparr>registry := [None, Some (PKey 9, 5)]\<rparr>)"
    by code_simp
  note th = path_validation [where w = initial_world and args = "[''1'']"]
  from th [where flags = ?f1 and e = example_env, THEN conjunct1] h1
  have a: "fst (main example_env ?f1 [''1''] initial_world) = 1" by blast
  from th [where flags = ?f2 and e = example_env, THEN conjunct2, THEN conjunct1] h2
  have b: "fst (main example_env ?f2 [''1''] initial_world) = 1" by blast
  from th [where flags = ?f3 and e = example_env, THEN conjunct2, THEN conjunct2, THEN conjunct1] h3
  have c: "fst (main example_env ?f3 [''1''] initial_world) = 1" by blast
  from th [where flags = ?f4 and e = example_env,
      THEN conjunct2, THEN conjunct2, THEN conjunct2, THEN conjunct1] h4
  have d: "fst (main example_env ?f4 [''1''] initial_world) = 1" by blast
  from th [where flags = ?f2 and e = ?e5,
      THEN conjunct2, THEN conjunct2, THEN conjunct2, THEN conjunct2, rule_format, OF r5]
  have f: "get_extension ''priv#.cxx'' = ''cxx''"
    by (simp add: initial_options_def)
  from a b c d r5 f show ?thesis by blast
qed

section \<open>The generation loop\<close>

lemma generate_loop_step:
  assumes "request_succeeds e tmpl (keygen_calls w) ki"
  shows "generate_loop e now tmpl (ki # rest) w
           = generate_loop e now tmpl rest
               (w\<lparr>registry := set_key (size_t_of_int (k_number ki))
                                (generated_key e (keygen_calls w)) now (registry w),
                  events := events w @ request_events e now tmpl (keygen_calls w) ki,
                  cerr := cerr w @ [rewriting_message (private_key_filename tmpl (k_number ki))],
                  keygen_calls := Suc (keygen_calls w)\<rparr>)"
proof -
  from assms obtain pkey data where
    k: "rsa_outcome e (keygen_calls w) = Generated pkey"
    and o: "can_open e (private_key_filename tmpl (k_number ki))"
    and d: "pem_pkcs8 e pkey (fst (pkcs8_arguments (request_pass_phrase ki)))
                      (snd (pkcs8_arguments (request_pass_phrase ki))) = Some data"
    by (auto simp: request_succeeds_def split: keygen_outcome.splits)
  show ?thesis
    using k o d
    by (cases w) (simp add: generate_key_def write_private_key_def emit_def put_cerr_def
        request_events_def generated_key_def private_key_bytes_def Let_def case_prod_beta)
qed

lemma generate_loop_succeeds:
  "requests_succeed e tmpl (keygen_calls w) reqs \<Longrightarrow>
   generate_loop e now tmpl reqs w
     = Inr ((), w\<lparr>registry := loop_registry e now (keygen_calls w) reqs (registry w),
                  events := events w @ loop_events e now tmpl (keygen_calls w) reqs,
                  cerr := cerr w @ map (\<lambda>ki. rewriting_message
                                               (private_key_filename tmpl (k_number ki))) reqs,
                  keygen_calls := keygen_calls w + length reqs\<rparr>)"
proof (induction reqs arbitrary: w)
  case Nil
  then show ?case by simp
next
  case (Cons ki reqs)
  from Cons.prems have s: "request_succeeds e tmpl (keygen_calls w) ki"
    and r: "requests_succeed e tmpl (Suc (keygen_calls w)) reqs" by simp_all
  let ?w = "w\<lparr>registry := set_key (size_t_of_int (k_number ki))
                                (generated_key e (keygen_calls w)) now (registry w),
                  events := events w @ request_events e now tmpl (keygen_calls w) ki,
                  cerr := cerr w @ [rewriting_message (private_key_filename tmpl (k_number ki))],
                  keygen_calls := Suc (keygen_calls w)\<rparr>"
  have "requests_succeed e tmpl (keygen_calls ?w) reqs" using r by simp
  from Cons.IH [OF this] show ?case
    by (simp only: generate_loop_step [OF s]) simp
qed

lemma generate_loop_fails_step:
  assumes "\<not> request_succeeds e tmpl (keygen_calls w) ki"
  shows "\<exists>w'. generate_loop e now tmpl (ki # rest) w = Inl (1, w')
           \<and> events w' = events w @ failed_request_events e now tmpl (keygen_calls w) ki
           \<and> time_calls w' = time_calls w"
proof (cases "rsa_outcome e (keygen_calls w)")
  case AllocFailed
  then show ?thesis
    by (simp add: generate_key_def failed_request_events_def output_ssl_errors_def put_cerr_def)
next
  case GenerateFailed
  then show ?thesis
    by (simp add: generate_key_def failed_request_events_def output_ssl_errors_def put_cerr_def)
next
  case (Generated pkey)
  show ?thesis
  proof (cases "can_open e (private_key_filename tmpl (k_number ki))")
    case False
    with Generated show ?thesis
      by (simp add: generate_key_def write_private_key_def failed_request_events_def
          emit_def put_cerr_def Let_def)
  next
    case True
    with assms Generated
    have "pem_pkcs8 e pkey (fst (pkcs8_arguments (request_pass_phrase ki)))
                      (snd (pkcs8_arguments (request_pass_phrase ki))) = None"
      by (simp add: request_succeeds_def)
    with True Generated show ?thesis
      by (simp add: generate_key_def write_private_key_def failed_request_events_def
          emit_def put_cerr_def output_ssl_errors_def Let_def case_prod_beta)
  qed
qed

lemma generate_loop_fails:
  "requests_succeed e tmpl (keygen_calls w) served \<Longrightarrow>
   \<not> request_succeeds e tmpl (keygen_calls w + length served) ki \<Longrightarrow>
   \<exists>w'. generate_loop e now tmpl (served @ ki # rest) w = Inl (1, w')
        \<and> events w' = events w @ loop_events e now tmpl (keygen_calls w) served
                        @ failed_request_events e now tmpl (keygen_calls w + length served) ki
        \<and> time_calls w' = time_calls w"
proof (induction served arbitrary: w)
  case Nil
  then show ?case using generate_loop_fails_step [of e tmpl w ki now rest] by simp
next
  case (Cons k served)
  from Cons.prems have s: "request_succeeds e tmpl (keygen_calls w) k"
    and r: "requests_succeed e tmpl (Suc (keygen_calls w)) served" by simp_all
  let ?w = "w\<lparr>registry := set_key (size_t_of_int (k_number k))
                                (generated_key e (keygen_calls w)) now (registry w),
                  events := events w @ request_events e now tmpl (keygen_calls w) k,
                  cerr := cerr w @ [rewriting_message (private_key_filename tmpl (k_number k))],
                  keygen_calls := Suc (keygen_calls w)\<rparr>"
  have a: "requests_succeed e tmpl (keygen_calls ?w) served" using r by simp
  have b: "\<not> request_succeeds e tmpl (keygen_calls ?w + length served) ki"
    using Cons.prems(2) by simp
  from Cons.IH [OF a b] show ?case
    by (simp only: append_Cons generate_loop_step [OF s]) simp
qed

lemma requests_fail_decomp:
  "\<not> requests_succeed e tmpl c reqs \<Longrightarrow>
   \<exists>served ki rest. reqs = served @ ki # rest \<and> requests_succeed e tmpl c served
      \<and> \<not> request_succeeds e tmpl (c + length served) ki"
proof (induction reqs arbitrary: c)
  case Nil
  then show ?case by simp
next
  case (Cons k reqs)
  show ?case
  proof (cases "request_succeeds e tmpl c k")
    case False
    then have "k # reqs = [] @ k # reqs \<and> requests_succeed e tmpl c []
      \<and> \<not> request_succeeds e tmpl (c + length ([] :: KeyNumber list)) k" by simp
    then show ?thesis by blast
  next
    case True
    with Cons.prems have "\<not> requests_succeed e tmpl (Suc c) reqs" by simp
    from Cons.IH [OF this] obtain served ki rest where
      d: "reqs = served @ ki # rest" "requests_succeed e tmpl (Suc c) served"
         "\<not> request_succeeds e tmpl (Suc c + length served) ki" by blast
    with True have "k # reqs = (k # served) @ ki # rest \<and> requests_succeed e tmpl c (k # served)
      \<and> \<not> request_succeeds e tmpl (c + length (k # served)) ki" by simp
    then show ?thesis by blast
  qed
qed

lemma generate_loop_status:
  "generate_loop e now tmpl reqs w = Inl (s, w') \<Longrightarrow> s = 1 \<and> \<not> requests_succeed e tmpl (keygen_calls w) reqs"
proof -
  assume a: "generate_loop e now tmpl reqs w = Inl (s, w')"
  have n: "\<not> requests_succeed e tmpl (keygen_calls w) reqs"
    using a generate_loop_succeeds [of e tmpl w reqs now] by auto
  from requests_fail_decomp [OF n] obtain served ki rest where
    d: "reqs = served @ ki # rest" "requests_succeed e tmpl (keygen_calls w) served"
       "\<not> request_succeeds e tmpl (keygen_calls w + length served) ki" by blast
  from generate_loop_fails [OF d(2,3), of now rest] a d(1) n show ?thesis by auto
qed

section \<open>Accepted and rejected command lines\<close>

lemma parse_key_number_accepted:
  "token_accepted arg \<Longrightarrow> \<exists>key. parse_key_number g gp arg = Inr key"
proof -
  obtain v r where vr: "strtol arg = (v, r)" by (cases "strtol arg")
  assume "token_accepted arg"
  then show ?thesis using vr
    by (auto simp: token_accepted_def parse_key_number_cases [OF vr])
qed


lemma parse_key_numbers_accepted:
  "list_all token_accepted args \<Longrightarrow>
   parse_key_numbers g gp args = Inr (map (\<lambda>arg. projr (parse_key_number g gp arg)) args)"
proof (induction args)
  case Nil
  then show ?case by simp
next
  case (Cons arg args)
  then have a: "token_accepted arg" and r: "list_all token_accepted args" by simp_all
  from parse_key_number_accepted [OF a, of g gp] obtain key where
    "parse_key_number g gp arg = Inr key" by blast
  with Cons.IH [OF r] show ?case by simp
qed


lemma paths_valid_public:
  assumes "paths_valid e (scan_options flags initial_options)"
  shows "validate_public_path e (scan_options flags initial_options) w
           = Inr (accepted_options e flags, accepted_world e flags w)"
  using assms
  by (auto simp: paths_valid_def validate_public_path_eq accepted_options_def
      accepted_world_def Let_def split: option.splits if_splits)

lemma paths_valid_private:
  assumes "paths_valid e (scan_options flags initial_options)"
  shows "validate_private_path (accepted_options e flags) w = Inr ((), w)"
  using assms
  by (auto simp: paths_valid_def validate_private_path_eq accepted_options_def Let_def
      split: option.splits if_splits)

lemma accepted_options_pass_phrase:
  "got_pass_phrase (accepted_options e flags) = got_pass_phrase (scan_options flags initial_options)
   \<and> pass_phrase (accepted_options e flags) = pass_phrase (scan_options flags initial_options)
   \<and> priv_outfile (accepted_options e flags) = priv_outfile (scan_options flags initial_options)"
  by (simp add: accepted_options_def Let_def split: option.splits)

lemma parse_command_line_accepted:
  assumes "command_line_accepted e flags args"
  shows "parse_command_line e flags args w
           = Inr ((accepted_options e flags, accepted_requests flags args),
                  accepted_world e flags w)"
proof -
  from assms have t: "terminal_flag flags = None" and a: "args \<noteq> []"
    and p: "paths_valid e (scan_options flags initial_options)"
    and k: "list_all token_accepted args"
    by (simp_all add: command_line_accepted_def)
  show ?thesis
    using t a
    by (simp add: parse_command_line_eq paths_valid_public [OF p] paths_valid_private [OF p]
        parse_key_numbers_accepted [OF k] accepted_options_pass_phrase accepted_requests_def
        Let_def)
qed




lemma accepted_world_fields:
  "events (accepted_world e flags w) = events w
   \<and> keygen_calls (accepted_world e flags w) = keygen_calls w
   \<and> time_calls (accepted_world e flags w) = time_calls w"
  by (simp add: accepted_world_def split: option.splits)

section \<open>The second half of \<^verbatim>\<open>main\<close>\<close>

lemma write_public_keys_ok:
  assumes "can_open e f"
    and "public_key_blobs e (registry w) [0..<length (registry w)] = Some blobs"
  shows "write_public_keys e f w
           = Inr ((), w\<lparr>events := events w @ [FileOpened f,
                              FileWritten f (public_keys_header @ blobs
                                             @ public_keys_table (registry w))],
                        cerr := cerr w @ [rewriting_message f]\<rparr>)"
  using assms
  by (cases w) (simp add: write_public_keys_def Let_def emit_def put_cerr_def get_num_keys_def)

lemma write_public_keys_fail:
  assumes "\<not> (can_open e f \<and> public_key_blobs e (registry w) [0..<length (registry w)] \<noteq> None)"
  shows "\<exists>w'. write_public_keys e f w = Inl (1, w')
           \<and> events w' = events w @ (if can_open e f then [FileOpened f] else [])
           \<and> time_calls w' = time_calls w"
  using assms
  by (auto simp: write_public_keys_def Let_def emit_def put_cerr_def get_num_keys_def
      output_ssl_errors_def)

lemma generate_all_succeeds:
  fixes e opts reqs w
  defines "now \<equiv> wall_clock e (time_calls w)"
    and "tmpl \<equiv> split_at_hash (get_fullpath_wo_extension (priv_outfile opts))"
  defines "reg \<equiv> loop_registry e now (keygen_calls w) reqs (registry w)"
  assumes ok: "generation_succeeds e opts reqs w"
  shows "\<exists>blobs w'. generate_all e opts reqs w = (0, w')
           \<and> public_key_blobs e reg [0..<length reg] = Some blobs
           \<and> events w' = events w @ loop_events e now tmpl (keygen_calls w) reqs
                          @ [FileOpened (pub_outfile opts),
                             FileWritten (pub_outfile opts)
                               (public_keys_header @ blobs @ public_keys_table reg)]
           \<and> registry w' = reg
           \<and> time_calls w' = Suc (time_calls w)
           \<and> keygen_calls w' = keygen_calls w + length reqs"
proof -
  let ?w4 = "w\<lparr>time_calls := Suc (time_calls w)\<rparr>"
  from ok have r: "requests_succeed e tmpl (keygen_calls ?w4) reqs"
    and o: "can_open e (pub_outfile opts)"
    and b: "public_key_blobs e reg [0..<length reg] \<noteq> None"
    by (simp_all add: generation_succeeds_def Let_def now_def tmpl_def reg_def)
  from b obtain blobs where bl: "public_key_blobs e reg [0..<length reg] = Some blobs" by blast
  let ?w5 = "?w4\<lparr>registry := loop_registry e now (keygen_calls ?w4) reqs (registry ?w4),
                  events := events ?w4 @ loop_events e now tmpl (keygen_calls ?w4) reqs,
                  cerr := cerr ?w4 @ map (\<lambda>ki. rewriting_message
                                               (private_key_filename tmpl (k_number ki))) reqs,
                  keygen_calls := keygen_calls ?w4 + length reqs\<rparr>"
  have l: "generate_loop e now tmpl reqs ?w4 = Inr ((), ?w5)"
    by (rule generate_loop_succeeds [OF r])
  have rg: "registry ?w5 = reg" by (simp add: reg_def)
  have p: "write_public_keys e (pub_outfile opts) ?w5
           = Inr ((), ?w5\<lparr>events := events ?w5 @ [FileOpened (pub_outfile opts),
                              FileWritten (pub_outfile opts) (public_keys_header @ blobs
                                             @ public_keys_table (registry ?w5))],
                        cerr := cerr ?w5 @ [rewriting_message (pub_outfile opts)]\<rparr>)"
    by (rule write_public_keys_ok [OF o]) (simp only: rg bl)
  have "generate_all e opts reqs w
          = (0, ?w5\<lparr>events := events ?w5 @ [FileOpened (pub_outfile opts),
                              FileWritten (pub_outfile opts) (public_keys_header @ blobs
                                             @ public_keys_table (registry ?w5))],
                        cerr := cerr ?w5 @ [rewriting_message (pub_outfile opts)]\<rparr>)"
    unfolding generate_all_def time_now_def Let_def
    by (simp only: prod.case now_def [symmetric] tmpl_def [symmetric] l p sum.case)
  with bl show ?thesis by (simp add: reg_def)
qed

lemma generate_all_fails_request:
  fixes e opts served ki rest w
  defines "now \<equiv> wall_clock e (time_calls w)"
    and "tmpl \<equiv> split_at_hash (get_fullpath_wo_extension (priv_outfile opts))"
  assumes s: "requests_succeed e tmpl (keygen_calls w) served"
    and f: "\<not> request_succeeds e tmpl (keygen_calls w + length served) ki"
  shows "\<exists>w'. generate_all e opts (served @ ki # rest) w = (1, w')
           \<and> events w' = events w @ loop_events e now tmpl (keygen_calls w) served
                          @ failed_request_events e now tmpl (keygen_calls w + length served) ki
           \<and> time_calls w' = Suc (time_calls w)"
proof -
  let ?w4 = "w\<lparr>time_calls := Suc (time_calls w)\<rparr>"
  have s': "requests_succeed e tmpl (keygen_calls ?w4) served" using s by simp
  have f': "\<not> request_succeeds e tmpl (keygen_calls ?w4 + length served) ki" using f by simp
  from generate_loop_fails [OF s' f', of now rest] obtain w' where
    w': "generate_loop e now tmpl (served @ ki # rest) ?w4 = Inl (1, w')"
        "events w' = events ?w4 @ loop_events e now tmpl (keygen_calls ?w4) served
                        @ failed_request_events e now tmpl (keygen_calls ?w4 + length served) ki"
        "time_calls w' = time_calls ?w4" by blast
  have "generate_all e opts (served @ ki # rest) w = (1, w')"
    unfolding generate_all_def time_now_def Let_def
    by (simp only: prod.case now_def [symmetric] tmpl_def [symmetric] w'(1) sum.case)
  with w'(2,3) show ?thesis by simp
qed

lemma generate_all_fails_public:
  fixes e opts reqs w
  defines "now \<equiv> wall_clock e (time_calls w)"
    and "tmpl \<equiv> split_at_hash (get_fullpath_wo_extension (priv_outfile opts))"
  defines "reg \<equiv> loop_registry e now (keygen_calls w) reqs (registry w)"
  assumes r: "requests_succeed e tmpl (keygen_calls w) reqs"
    and n: "\<not> (can_open e (pub_outfile opts) \<and> public_key_blobs e reg [0..<length reg] \<noteq> None)"
  shows "\<exists>w'. generate_all e opts reqs w = (1, w')
           \<and> events w' = events w @ loop_events e now tmpl (keygen_calls w) reqs
                          @ (if can_open e (pub_outfile opts)
                             then [FileOpened (pub_outfile opts)] else [])
           \<and> time_calls w' = Suc (time_calls w)"
proof -
  let ?w4 = "w\<lparr>time_calls := Suc (time_calls w)\<rparr>"
  have r': "requests_succeed e tmpl (keygen_calls ?w4) reqs" using r by simp
  let ?w5 = "?w4\<lparr>registry := loop_registry e now (keygen_calls ?w4) reqs (registry ?w4),
                  events := events ?w4 @ loop_events e now tmpl (keygen_calls ?w4) reqs,
                  cerr := cerr ?w4 @ map (\<lambda>ki. rewriting_message
                                               (private_key_filename tmpl (k_number ki))) reqs,
                  keygen_calls := keygen_calls ?w4 + length reqs\<rparr>"
  have l: "generate_loop e now tmpl reqs ?w4 = Inr ((), ?w5)"
    by (rule generate_loop_succeeds [OF r'])
  have rg: "registry ?w5 = reg" by (simp add: reg_def)
  have "\<not> (can_open e (pub_outfile opts)
           \<and> public_key_blobs e (registry ?w5) [0..<length (registry ?w5)] \<noteq> None)"
    unfolding rg by (rule n)
  from write_public_keys_fail [OF this] obtain w' where
    w': "write_public_keys e (pub_outfile opts) ?w5 = Inl (1, w')"
        "events w' = events ?w5 @ (if can_open e (pub_outfile opts)
                                   then [FileOpened (pub_outfile opts)] else [])"
        "time_calls w' = time_calls ?w5" by blast
  have "generate_all e opts reqs w = (1, w')"
    unfolding generate_all_def time_now_def Let_def
    by (simp only: prod.case now_def [symmetric] tmpl_def [symmetric] l w'(1) sum.case)
  with w'(2,3) show ?thesis by simp
qed


lemma main_accepted:
  "command_line_accepted e flags args \<Longrightarrow>
   main e flags args w
     = generate_all e (accepted_options e flags) (accepted_requests flags args)
         (accepted_world e flags w)"
  by (simp add: main_def parse_command_line_accepted)


section \<open>The exit status\<close>


lemma requests_succeed_nth:
  "requests_succeed e tmpl c reqs \<Longrightarrow> j < length reqs \<Longrightarrow>
   request_succeeds e tmpl (c + j) (reqs ! j)"
proof (induction reqs arbitrary: c j)
  case Nil
  then show ?case by simp
next
  case (Cons k reqs)
  show ?case
  proof (cases j)
    case 0
    with Cons.prems show ?thesis by simp
  next
    case (Suc i)
    with Cons.prems have "requests_succeed e tmpl (Suc c) reqs" "i < length reqs" by simp_all
    from Cons.IH [OF this] Suc show ?thesis by simp
  qed
qed



section \<open>The order of generation and writing\<close>

lemma loop_events_concat:
  "loop_events e now tmpl c reqs
     = concat (map (\<lambda>j. request_events e now tmpl (c + j) (reqs ! j)) [0..<length reqs])"
proof (induction reqs arbitrary: c)
  case Nil
  then show ?case by simp
next
  case (Cons k reqs)
  have "[0..<length (k # reqs)] = 0 # map Suc [0..<length reqs]"
    by (simp add: upt_conv_Cons map_Suc_upt del: upt_Suc)
  then show ?case
    by (simp add: Cons.IH [of "Suc c"] comp_def del: upt_Suc)
qed

lemma failed_request_events_not_written:
  "\<not> list_ex is_file_written (failed_request_events e now tmpl c ki)"
  by (simp add: failed_request_events_def is_file_written_def split: keygen_outcome.splits)

text \<open>
  Claim C8.  On an accepted command line \<^verbatim>\<open>main\<close> is its second half run on the requests in
  the order of the arguments.  When every step goes through, the events of the run are, for
  each request in that order, the generation of its key, the recording of the key in the
  registry, and the opening and the complete writing of its private-key file; then, once,
  the opening and the writing of the public table; and the status is 0.  When a request
  fails, the status is 1 and the events are those of the requests before it, complete with
  their written private-key files, followed by what the failing request got done, which
  contains no written file; the public table is not touched.
\<close>

theorem generation_order:
  "(command_line_accepted e flags args \<longrightarrow>
      main e flags args w0
        = generate_all e (accepted_options e flags) (accepted_requests flags args)
            (accepted_world e flags w0)
      \<and> events (accepted_world e flags w0) = events w0)
   \<and> (generation_succeeds e opts reqs w \<longrightarrow>
        (\<exists>blobs w'. generate_all e opts reqs w = (0, w')
           \<and> events w'
               = events w
                 @ loop_events e (wall_clock e (time_calls w))
                     (split_at_hash (get_fullpath_wo_extension (priv_outfile opts)))
                     (keygen_calls w) reqs
                 @ [FileOpened (pub_outfile opts),
                    FileWritten (pub_outfile opts)
                      (public_keys_header @ blobs @ public_keys_table (registry w'))]))
   \<and> (requests_succeed e (split_at_hash (get_fullpath_wo_extension (priv_outfile opts)))
          (keygen_calls w) served
        \<and> \<not> request_succeeds e (split_at_hash (get_fullpath_wo_extension (priv_outfile opts)))
              (keygen_calls w + length served) ki \<longrightarrow>
        (\<exists>w'. generate_all e opts (served @ ki # rest) w = (1, w')
           \<and> events w'
               = events w
                 @ loop_events e (wall_clock e (time_calls w))
                     (split_at_hash (get_fullpath_wo_extension (priv_outfile opts)))
                     (keygen_calls w) served
                 @ failed_request_events e (wall_clock e (time_calls w))
                     (split_at_hash (get_fullpath_wo_extension (priv_outfile opts)))
                     (keygen_calls w + length served) ki))
   \<and> loop_events e now tmpl c reqs
       = concat (map (\<lambda>j. request_events e now tmpl (c + j) (reqs ! j)) [0..<length reqs])
   \<and> request_events e now tmpl c ki
       = [KeyGenerated (generated_key e c),
          KeyRecorded (size_t_of_int (k_number ki)) (generated_key e c) now,
          FileOpened (private_key_filename tmpl (k_number ki)),
          FileWritten (private_key_filename tmpl (k_number ki))
            (private_key_text (private_key_filename tmpl (k_number ki)) (k_number ki) now
               (private_key_bytes e c ki))]
   \<and> \<not> list_ex is_file_written (failed_request_events e now tmpl c ki)"
proof -
  have a: "command_line_accepted e flags args \<longrightarrow>
      main e flags args w0
        = generate_all e (accepted_options e flags) (accepted_requests flags args)
            (accepted_world e flags w0)
      \<and> events (accepted_world e flags w0) = events w0"
    using main_accepted [of e flags args w0] accepted_world_fields [of e flags w0] by simp
  have b: "generation_succeeds e opts reqs w \<longrightarrow>
        (\<exists>blobs w'. generate_all e opts reqs w = (0, w')
           \<and> events w'
               = events w
                 @ loop_events e (wall_clock e (time_calls w))
                     (split_at_hash (get_fullpath_wo_extension (priv_outfile opts)))
                     (keygen_calls w) reqs
                 @ [FileOpened (pub_outfile opts),
                    FileWritten (pub_outfile opts)
                      (public_keys_header @ blobs @ public_keys_table (registry w'))])"
  proof
    assume "generation_succeeds e opts reqs w"
    from generate_all_succeeds [OF this] show "\<exists>blobs w'. generate_all e opts reqs w = (0, w')
           \<and> events w'
               = events w
                 @ loop_events e (wall_clock e (time_calls w))
                     (split_at_hash (get_fullpath_wo_extension (priv_outfile opts)))
                     (keygen_calls w) reqs
                 @ [FileOpened (pub_outfile opts),
                    FileWritten (pub_outfile opts)
                      (public_keys_header @ blobs @ public_keys_table (registry w'))]"
      by auto
  qed
  have c: "requests_succeed e (split_at_hash (get_fullpath_wo_extension (priv_outfile opts)))
          (keygen_calls w) served
        \<and> \<not> request_succeeds e (split_at_hash (get_fullpath_wo_extension (priv_outfile opts)))
              (keygen_calls w + length served) ki \<longrightarrow>
        (\<exists>w'. generate_all e opts (served @ ki # rest) w = (1, w')
           \<and> events w'
               = events w
                 @ loop_events e (wall_clock e (time_calls w))
                     (split_at_hash (get_fullpath_wo_extension (priv_outfile opts)))
                     (keygen_calls w) served
                 @ failed_request_events e (wall_clock e (time_calls w))
                     (split_at_hash (get_fullpath_wo_extension (priv_outfile opts)))
                     (keygen_calls w + length served) ki)"
    using generate_all_fails_request [of e opts w served ki rest] by blast
  have d: "request_events e now tmpl c ki
       = [KeyGenerated (generated_key e c),
          KeyRecorded (size_t_of_int (k_number ki)) (generated_key e c) now,
          FileOpened (private_key_filename tmpl (k_number ki)),
          FileWritten (private_key_filename tmpl (k_number ki))
            (private_key_text (private_key_filename tmpl (k_number ki)) (k_number ki) now
               (private_key_bytes e c ki))]"
    by (simp add: request_events_def Let_def)
  from a b c d loop_events_concat [of e now tmpl c reqs]
    failed_request_events_not_written [of e now tmpl c ki]
  show ?thesis by blast
qed

text \<open>
  The requests \<^verbatim>\<open>2\<close> and \<^verbatim>\<open>1\<close>, in this order: once in the world where everything goes through,
  once where the private file of level 1 cannot be opened.
\<close>

theorem generation_order_witness:
  "(\<exists>t1 t2 t3.
      main example_env [(CHR ''a'', ''pub.cxx''), (CHR ''b'', ''priv#.cxx'')] [''2'', ''1'']
        initial_world
        = (0, snd (main example_env [(CHR ''a'', ''pub.cxx''), (CHR ''b'', ''priv#.cxx'')]
                     [''2'', ''1''] initial_world))
      \<and> events (snd (main example_env [(CHR ''a'', ''pub.cxx''), (CHR ''b'', ''priv#.cxx'')]
                        [''2'', ''1''] initial_world))
          = [KeyGenerated (PKey 0), KeyRecorded 2 (PKey 0) 1000,
             FileOpened ''priv2.cxx'', FileWritten ''priv2.cxx'' t1,
             KeyGenerated (PKey 1), KeyRecorded 1 (PKey 1) 1000,
             FileOpened ''priv1.cxx'', FileWritten ''priv1.cxx'' t2,
             FileOpened ''pub.cxx'', FileWritten ''pub.cxx'' t3])
   \<and> (\<exists>t1 w'.
      main (example_env\<lparr>can_open := (\<lambda>f. f \<noteq> ''priv1.cxx'')\<rparr>)
        [(CHR ''a'', ''pub.cxx''), (CHR ''b'', ''priv#.cxx'')] [''2'', ''1''] initial_world
        = (1, w')
      \<and> events w'
          = [KeyGenerated (PKey 0), KeyRecorded 2 (PKey 0) 1000,
             FileOpened ''priv2.cxx'', FileWritten ''priv2.cxx'' t1,
             KeyGenerated (PKey 1), KeyRecorded 1 (PKey 1) 1000])"
proof -
  let ?ab = "[(CHR ''a'', ''pub.cxx''), (CHR ''b'', ''priv#.cxx'')]"
  let ?args = "[''2'', ''1'']"
  let ?e = "example_env"
  let ?f = "example_env\<lparr>can_open := (\<lambda>f. f \<noteq> ''priv1.cxx'')\<rparr>"
  let ?k2 = "\<lparr>k_number = 2, k_got_pass_phrase = False, k_pass_phrase = []\<rparr>"
  let ?k1 = "\<lparr>k_number = 1, k_got_pass_phrase = False, k_pass_phrase = []\<rparr>"
  let ?tmpl = "(''priv'', ''.cxx'', True)"
  have ev0: "events initial_world = []" by (simp add: initial_world_def)
  \<comment> \<open>the run in which every step goes through\<close>
  have acc: "command_line_accepted ?e ?ab ?args" by code_simp
  have ok: "generation_succeeds ?e (accepted_options ?e ?ab) (accepted_requests ?ab ?args)
              (accepted_world ?e ?ab initial_world)" by code_simp
  have le: "loop_events ?e (wall_clock ?e (time_calls (accepted_world ?e ?ab initial_world)))
              (split_at_hash (get_fullpath_wo_extension (priv_outfile (accepted_options ?e ?ab))))
              (keygen_calls (accepted_world ?e ?ab initial_world)) (accepted_requests ?ab ?args)
            = [KeyGenerated (PKey 0), KeyRecorded 2 (PKey 0) 1000,
               FileOpened ''priv2.cxx'',
               FileWritten ''priv2.cxx''
                 (private_key_text ''priv2.cxx'' 2 1000 (private_key_bytes ?e 0 ?k2)),
               KeyGenerated (PKey 1), KeyRecorded 1 (PKey 1) 1000,
               FileOpened ''priv1.cxx'',
               FileWritten ''priv1.cxx''
                 (private_key_text ''priv1.cxx'' 1 1000 (private_key_bytes ?e 1 ?k1))]"
    by code_simp
  have pub: "pub_outfile (accepted_options ?e ?ab) = ''pub.cxx''" by code_simp
  note th = generation_order [where e = ?e and flags = ?ab and args = ?args
      and ?w0.0 = initial_world and opts = "accepted_options ?e ?ab"
      and reqs = "accepted_requests ?ab ?args" and w = "accepted_world ?e ?ab initial_world"]
  from th [THEN conjunct1] acc
  have m: "main ?e ?ab ?args initial_world
             = generate_all ?e (accepted_options ?e ?ab) (accepted_requests ?ab ?args)
                 (accepted_world ?e ?ab initial_world)"
    and e0: "events (accepted_world ?e ?ab initial_world) = []"
    by (simp_all add: ev0)
  from th [THEN conjunct2, THEN conjunct1] ok obtain blobs w' where
    g: "generate_all ?e (accepted_options ?e ?ab) (accepted_requests ?ab ?args)
          (accepted_world ?e ?ab initial_world) = (0, w')"
    and ev: "events w'
        = events (accepted_world ?e ?ab initial_world)
          @ loop_events ?e (wall_clock ?e (time_calls (accepted_world ?e ?ab initial_world)))
              (split_at_hash (get_fullpath_wo_extension (priv_outfile (accepted_options ?e ?ab))))
              (keygen_calls (accepted_world ?e ?ab initial_world)) (accepted_requests ?ab ?args)
          @ [FileOpened (pub_outfile (accepted_options ?e ?ab)),
             FileWritten (pub_outfile (accepted_options ?e ?ab))
               (public_keys_header @ blobs @ public_keys_table (registry w'))]"
    by blast
  have a: "\<exists>t1 t2 t3.
      main ?e ?ab ?args initial_world = (0, snd (main ?e ?ab ?args initial_world))
      \<and> events (snd (main ?e ?ab ?args initial_world))
          = [KeyGenerated (PKey 0), KeyRecorded 2 (PKey 0) 1000,
             FileOpened ''priv2.cxx'', FileWritten ''priv2.cxx'' t1,
             KeyGenerated (PKey 1), KeyRecorded 1 (PKey 1) 1000,
             FileOpened ''priv1.cxx'', FileWritten ''priv1.cxx'' t2,
             FileOpened ''pub.cxx'', FileWritten ''pub.cxx'' t3]"
    unfolding m g using ev unfolding e0 le pub by simp
  \<comment> \<open>the run in which the private file of the second request does not open\<close>
  have accf: "command_line_accepted ?f ?ab ?args" by code_simp
  have rq: "accepted_requests ?ab ?args = [?k2] @ ?k1 # []" by code_simp
  have fl: "requests_succeed ?f
              (split_at_hash (get_fullpath_wo_extension (priv_outfile (accepted_options ?f ?ab))))
              (keygen_calls (accepted_world ?f ?ab initial_world)) [?k2]
            \<and> \<not> request_succeeds ?f
              (split_at_hash (get_fullpath_wo_extension (priv_outfile (accepted_options ?f ?ab))))
              (keygen_calls (accepted_world ?f ?ab initial_world) + length [?k2]) ?k1"
    by code_simp
  have lf: "loop_events ?f (wall_clock ?f (time_calls (accepted_world ?f ?ab initial_world)))
              (split_at_hash (get_fullpath_wo_extension (priv_outfile (accepted_options ?f ?ab))))
              (keygen_calls (accepted_world ?f ?ab initial_world)) [?k2]
            @ failed_request_events ?f (wall_clock ?f (time_calls (accepted_world ?f ?ab initial_world)))
              (split_at_hash (get_fullpath_wo_extension (priv_outfile (accepted_options ?f ?ab))))
              (keygen_calls (accepted_world ?f ?ab initial_world) + length [?k2]) ?k1
            = [KeyGenerated (PKey 0), KeyRecorded 2 (PKey 0) 1000,
               FileOpened ''priv2.cxx'',
               FileWritten ''priv2.cxx''
                 (private_key_text ''priv2.cxx'' 2 1000 (private_key_bytes ?f 0 ?k2)),
               KeyGenerated (PKey 1), KeyRecorded 1 (PKey 1) 1000]"
    by code_simp
  note tf = generation_order [where e = ?f and flags = ?ab and args = ?args
      and ?w0.0 = initial_world and opts = "accepted_options ?f ?ab"
      and served = "[?k2]" and ki = ?k1 and rest = "[]"
      and w = "accepted_world ?f ?ab initial_world"]
  from tf [THEN conjunct1] accf
  have mf: "main ?f ?ab ?args initial_world
             = generate_all ?f (accepted_options ?f ?ab) ([?k2] @ ?k1 # [])
                 (accepted_world ?f ?ab initial_world)"
    and ef: "events (accepted_world ?f ?ab initial_world) = []"
    by (simp_all add: ev0 rq)
  from tf [THEN conjunct2, THEN conjunct2, THEN conjunct1] fl obtain w' where
    gf: "generate_all ?f (accepted_options ?f ?ab) ([?k2] @ ?k1 # [])
          (accepted_world ?f ?ab initial_world) = (1, w')"
    and evf: "events w'
        = events (accepted_world ?f ?ab initial_world)
          @ loop_events ?f (wall_clock ?f (time_calls (accepted_world ?f ?ab initial_world)))
              (split_at_hash (get_fullpath_wo_extension (priv_outfile (accepted_options ?f ?ab))))
              (keygen_calls (accepted_world ?f ?ab initial_world)) [?k2]
          @ failed_request_events ?f (wall_clock ?f (time_calls (accepted_world ?f ?ab initial_world)))
              (split_at_hash (get_fullpath_wo_extension (priv_outfile (accepted_options ?f ?ab))))
              (keygen_calls (accepted_world ?f ?ab initial_world) + length [?k2]) ?k1"
    by blast
  have b: "\<exists>t1 w'.
      main ?f ?ab ?args initial_world = (1, w')
      \<and> events w'
          = [KeyGenerated (PKey 0), KeyRecorded 2 (PKey 0) 1000,
             FileOpened ''priv2.cxx'', FileWritten ''priv2.cxx'' t1,
             KeyGenerated (PKey 1), KeyRecorded 1 (PKey 1) 1000]"
    unfolding mf gf using evf unfolding ef lf by simp
  from a b show ?thesis by blast
qed

section \<open>One generation time for a run\<close>

lemma sublist_generated_time_define:
  "sublist (generated_time_define now) (private_key_text f n now data)"
proof -
  let ?before = "private_key_header n @ output_c_string ''prc_privkey'' (size_t_of_int n) data
             @ [c_newline, c_newline]
             @ ''#define KEY_NUMBER '' @ show_int n @ [c_newline]
             @ ''#define KEY_DATA prc_privkey'' @ show_int n @ ''_data'' @ [c_newline]
             @ ''#define KEY_LENGTH prc_privkey'' @ show_int n @ ''_length'' @ [c_newline]
             @ ''#define PROGNAME '' @ [c_dquote] @ get_basename_wo_extension f @ [c_dquote]
             @ [c_newline]"
  let ?after = "[c_newline] @ ''#include '' @ [c_dquote] @ ''signPrcFile_src.cxx'' @ [c_dquote]
               @ [c_newline, c_newline]"
  have "private_key_text f n now data = ?before @ generated_time_define now @ ?after"
    by (simp add: private_key_text_def private_key_defines_def generated_time_define_def)
  then show ?thesis by (simp only: sublist_appendI)
qed

lemma request_events_time:
  "ev \<in> set (request_events e now tmpl c ki) \<Longrightarrow>
   (\<forall>n k t. ev = KeyRecorded n k t \<longrightarrow> t = now)
   \<and> (\<forall>f text. ev = FileWritten f text \<longrightarrow> sublist (generated_time_define now) text)"
  by (auto simp: request_events_def Let_def sublist_generated_time_define)

lemma loop_events_time:
  "ev \<in> set (loop_events e now tmpl c reqs) \<Longrightarrow>
   (\<forall>n k t. ev = KeyRecorded n k t \<longrightarrow> t = now)
   \<and> (\<forall>f text. ev = FileWritten f text \<longrightarrow> sublist (generated_time_define now) text)"
proof (induction reqs arbitrary: c)
  case Nil
  then show ?case by simp
next
  case (Cons k reqs)
  from Cons.prems have "ev \<in> set (request_events e now tmpl c k)
      \<or> ev \<in> set (loop_events e now tmpl (Suc c) reqs)" by simp
  then show ?case using request_events_time Cons.IH by blast
qed

lemma failed_request_events_time:
  "ev \<in> set (failed_request_events e now tmpl c ki) \<Longrightarrow> ev = KeyRecorded n k t \<Longrightarrow> t = now"
  by (auto simp: failed_request_events_def split: keygen_outcome.splits if_splits)

lemma get_generated_time_set_key_same:
  "get_generated_time (set_key n pkey now reg) n = now"
proof -
  have "n < max (length reg) (Suc n)" by simp
  then show ?thesis by (simp add: get_generated_time_def length_set_key nth_set_key)
qed

lemma get_generated_time_set_key_keeps:
  "get_generated_time reg n = now \<Longrightarrow> get_generated_time (set_key m pkey now reg) n = now"
  by (auto simp: get_generated_time_def length_set_key nth_set_key split: if_splits)

lemma loop_registry_keeps_time:
  "get_generated_time reg n = now \<Longrightarrow>
   get_generated_time (loop_registry e now c reqs reg) n = now"
  by (induction reqs arbitrary: c reg) (simp_all add: get_generated_time_set_key_keeps)

lemma loop_registry_time:
  "ki \<in> set reqs \<Longrightarrow>
   get_generated_time (loop_registry e now c reqs reg) (size_t_of_int (k_number ki)) = now"
proof (induction reqs arbitrary: c reg)
  case Nil
  then show ?case by simp
next
  case (Cons k reqs)
  show ?case
  proof (cases "ki = k")
    case True
    then show ?thesis
      by (simp add: loop_registry_keeps_time get_generated_time_set_key_same)
  next
    case False
    with Cons.prems have "ki \<in> set reqs" by simp
    from Cons.IH [OF this] show ?thesis by simp
  qed
qed

lemma generate_all_time:
  "time_calls (snd (generate_all e opts reqs w)) = Suc (time_calls w)"
proof (cases "generation_succeeds e opts reqs w")
  case True
  from generate_all_succeeds [OF this] show ?thesis by auto
next
  case False
  let ?now = "wall_clock e (time_calls w)"
  let ?tmpl = "split_at_hash (get_fullpath_wo_extension (priv_outfile opts))"
  show ?thesis
  proof (cases "requests_succeed e ?tmpl (keygen_calls w) reqs")
    case True
    with False have "\<not> (can_open e (pub_outfile opts)
        \<and> public_key_blobs e (loop_registry e ?now (keygen_calls w) reqs (registry w))
             [0..<length (loop_registry e ?now (keygen_calls w) reqs (registry w))] \<noteq> None)"
      by (simp add: generation_succeeds_def Let_def)
    from generate_all_fails_public [OF True this] show ?thesis by auto
  next
    case f: False
    from requests_fail_decomp [OF this] obtain served ki rest where
      d: "reqs = served @ ki # rest" "requests_succeed e ?tmpl (keygen_calls w) served"
         "\<not> request_succeeds e ?tmpl (keygen_calls w + length served) ki" by blast
    from generate_all_fails_request [OF d(2,3), of rest] d(1) show ?thesis by auto
  qed
qed

text \<open>
  Claim C9.  The second half of \<^verbatim>\<open>main\<close> reads the clock exactly once, whatever happens
  afterwards, and the first half does not read it.  The value read is the time stamp of
  every key recorded by the loop, it is the generation time the registry holds for the
  level of every request once the loop is through, and the line
  \<^verbatim>\<open>#define GENERATED_TIME\<close> with that value stands in every private-key file the run writes.
\<close>

theorem single_generation_time:
  "time_calls (snd (generate_all e opts reqs w)) = Suc (time_calls w)
   \<and> (command_line_accepted e flags args \<longrightarrow>
        main e flags args w0
          = generate_all e (accepted_options e flags) (accepted_requests flags args)
              (accepted_world e flags w0)
        \<and> time_calls (accepted_world e flags w0) = time_calls w0)
   \<and> (generation_succeeds e opts reqs w \<longrightarrow>
        (\<exists>blobs w'. generate_all e opts reqs w = (0, w')
           \<and> events w'
               = events w
                 @ loop_events e (wall_clock e (time_calls w))
                     (split_at_hash (get_fullpath_wo_extension (priv_outfile opts)))
                     (keygen_calls w) reqs
                 @ [FileOpened (pub_outfile opts),
                    FileWritten (pub_outfile opts)
                      (public_keys_header @ blobs @ public_keys_table (registry w'))]
           \<and> registry w'
               = loop_registry e (wall_clock e (time_calls w)) (keygen_calls w) reqs (registry w)))
   \<and> (\<forall>ev\<in>set (loop_events e now tmpl c reqs).
         (\<forall>n k t. ev = KeyRecorded n k t \<longrightarrow> t = now)
         \<and> (\<forall>f text. ev = FileWritten f text \<longrightarrow> sublist (generated_time_define now) text))
   \<and> (\<forall>ki\<in>set reqs.
         get_generated_time (loop_registry e now c reqs reg) (size_t_of_int (k_number ki)) = now)
   \<and> (\<forall>ev\<in>set (failed_request_events e now tmpl c ki).
         \<forall>n k t. ev = KeyRecorded n k t \<longrightarrow> t = now)"
proof -
  have b: "command_line_accepted e flags args \<longrightarrow>
        main e flags args w0
          = generate_all e (accepted_options e flags) (accepted_requests flags args)
              (accepted_world e flags w0)
        \<and> time_calls (accepted_world e flags w0) = time_calls w0"
    using main_accepted [of e flags args w0] accepted_world_fields [of e flags w0] by simp
  have c: "generation_succeeds e opts reqs w \<longrightarrow>
        (\<exists>blobs w'. generate_all e opts reqs w = (0, w')
           \<and> events w'
               = events w
                 @ loop_events e (wall_clock e (time_calls w))
                     (split_at_hash (get_fullpath_wo_extension (priv_outfile opts)))
                     (keygen_calls w) reqs
                 @ [FileOpened (pub_outfile opts),
                    FileWritten (pub_outfile opts)
                      (public_keys_header @ blobs @ public_keys_table (registry w'))]
           \<and> registry w'
               = loop_registry e (wall_clock e (time_calls w)) (keygen_calls w) reqs (registry w))"
  proof
    assume "generation_succeeds e opts reqs w"
    from generate_all_succeeds [OF this]
    show "\<exists>blobs w'. generate_all e opts reqs w = (0, w')
           \<and> events w'
               = events w
                 @ loop_events e (wall_clock e (time_calls w))
                     (split_at_hash (get_fullpath_wo_extension (priv_outfile opts)))
                     (keygen_calls w) reqs
                 @ [FileOpened (pub_outfile opts),
                    FileWritten (pub_outfile opts)
                      (public_keys_header @ blobs @ public_keys_table (registry w'))]
           \<and> registry w'
               = loop_registry e (wall_clock e (time_calls w)) (keygen_calls w) reqs (registry w)"
      by auto
  qed
  have d: "\<forall>ev\<in>set (loop_events e now tmpl c reqs).
         (\<forall>n k t. ev = KeyRecorded n k t \<longrightarrow> t = now)
         \<and> (\<forall>f text. ev = FileWritten f text \<longrightarrow> sublist (generated_time_define now) text)"
    using loop_events_time by blast
  have f: "\<forall>ki\<in>set reqs.
         get_generated_time (loop_registry e now c reqs reg) (size_t_of_int (k_number ki)) = now"
    using loop_registry_time by blast
  have g: "\<forall>ev\<in>set (failed_request_events e now tmpl c ki).
         \<forall>n k t. ev = KeyRecorded n k t \<longrightarrow> t = now"
    using failed_request_events_time by blast
  from generate_all_time [of e opts reqs w] b c d f g show ?thesis by blast
qed

text \<open>
  A run for the levels 1 and 2: the clock, read once, says 1000; both registry entries and
  both private-key files carry 1000.
\<close>

theorem single_generation_time_witness:
  "wall_clock example_env (time_calls initial_world) = 1000
   \<and> time_calls (snd (main example_env [(CHR ''a'', ''pub.cxx''), (CHR ''b'', ''priv#.cxx'')]
                         [''1'', ''2''] initial_world)) = Suc (time_calls initial_world)
   \<and> get_generated_time
        (registry (snd (main example_env [(CHR ''a'', ''pub.cxx''), (CHR ''b'', ''priv#.cxx'')]
                          [''1'', ''2''] initial_world))) 1 = 1000
   \<and> get_generated_time
        (registry (snd (main example_env [(CHR ''a'', ''pub.cxx''), (CHR ''b'', ''priv#.cxx'')]
                          [''1'', ''2''] initial_world))) 2 = 1000
   \<and> (\<exists>t3. events (snd (main example_env [(CHR ''a'', ''pub.cxx''), (CHR ''b'', ''priv#.cxx'')]
                        [''1'', ''2''] initial_world))
          = [KeyGenerated (PKey 0), KeyRecorded 1 (PKey 0) 1000,
             FileOpened ''priv1.cxx'',
             FileWritten ''priv1.cxx''
               (private_key_text ''priv1.cxx'' 1 1000 (''PRIV0 prompt'' @ [c_newline])),
             KeyGenerated (PKey 1), KeyRecorded 2 (PKey 1) 1000,
             FileOpened ''priv2.cxx'',
             FileWritten ''priv2.cxx''
               (private_key_text ''priv2.cxx'' 2 1000 (''PRIV1 prompt'' @ [c_newline])),
             FileOpened ''pub.cxx'', FileWritten ''pub.cxx'' t3])
   \<and> sublist (''#define GENERATED_TIME 1000'' @ [c_newline])
        (private_key_text ''priv1.cxx'' 1 1000 (''PRIV0 prompt'' @ [c_newline]))
   \<and> sublist (''#define GENERATED_TIME 1000'' @ [c_newline])
        (private_key_text ''priv2.cxx'' 2 1000 (''PRIV1 prompt'' @ [c_newline]))"
proof -
  let ?ab = "[(CHR ''a'', ''pub.cxx''), (CHR ''b'', ''priv#.cxx'')]"
  let ?args = "[''1'', ''2'']"
  let ?e = "example_env"
  let ?k1 = "\<lparr>k_number = 1, k_got_pass_phrase = False, k_pass_phrase = []\<rparr>"
  let ?k2 = "\<lparr>k_number = 2, k_got_pass_phrase = False, k_pass_phrase = []\<rparr>"
  let ?W = "accepted_world ?e ?ab initial_world"
  let ?O = "accepted_options ?e ?ab"
  let ?R = "accepted_requests ?ab ?args"
  let ?now = "wall_clock ?e (time_calls ?W)"
  let ?tmpl = "split_at_hash (get_fullpath_wo_extension (priv_outfile ?O))"
  let ?t1 = "private_key_text ''priv1.cxx'' 1 1000 (''PRIV0 prompt'' @ [c_newline])"
  let ?t2 = "private_key_text ''priv2.cxx'' 2 1000 (''PRIV1 prompt'' @ [c_newline])"
  have clock: "wall_clock ?e (time_calls initial_world) = 1000" by code_simp
  have now: "?now = 1000" by code_simp
  have acc: "command_line_accepted ?e ?ab ?args" by code_simp
  have ok: "generation_succeeds ?e ?O ?R ?W" by code_simp
  have rq: "?R = [?k1, ?k2]" by code_simp
  have sz: "size_t_of_int 1 = 1" "size_t_of_int 2 = 2" by code_simp+
  have pub: "pub_outfile ?O = ''pub.cxx''" by code_simp
  have gd: "generated_time_define 1000 = ''#define GENERATED_TIME 1000'' @ [c_newline]"
    by code_simp
  have le: "loop_events ?e ?now ?tmpl (keygen_calls ?W) ?R
            = [KeyGenerated (PKey 0), KeyRecorded 1 (PKey 0) 1000,
               FileOpened ''priv1.cxx'', FileWritten ''priv1.cxx'' ?t1,
               KeyGenerated (PKey 1), KeyRecorded 2 (PKey 1) 1000,
               FileOpened ''priv2.cxx'', FileWritten ''priv2.cxx'' ?t2]"
    by code_simp
  have ev0: "events ?W = []" by code_simp
  note th = single_generation_time [where e = ?e and flags = ?ab and args = ?args
      and ?w0.0 = initial_world and opts = ?O and reqs = ?R and w = ?W
      and now = ?now and tmpl = ?tmpl and c = "keygen_calls ?W" and reg = "registry ?W"]
  from th [THEN conjunct2, THEN conjunct1] acc
  have m: "main ?e ?ab ?args initial_world = generate_all ?e ?O ?R ?W"
    and tc: "time_calls ?W = time_calls initial_world" by simp_all
  from th [THEN conjunct1]
  have a: "time_calls (snd (main ?e ?ab ?args initial_world)) = Suc (time_calls initial_world)"
    by (simp only: m tc)
  from th [THEN conjunct2, THEN conjunct2, THEN conjunct1] ok obtain blobs w' where
    g: "generate_all ?e ?O ?R ?W = (0, w')"
    and ev: "events w' = events ?W @ loop_events ?e ?now ?tmpl (keygen_calls ?W) ?R
                @ [FileOpened (pub_outfile ?O),
                   FileWritten (pub_outfile ?O)
                     (public_keys_header @ blobs @ public_keys_table (registry w'))]"
    and rg: "registry w' = loop_registry ?e ?now (keygen_calls ?W) ?R (registry ?W)"
    by blast
  have sm: "snd (main ?e ?ab ?args initial_world) = w'" by (simp only: m g snd_conv)
  note th5 = th [THEN conjunct2, THEN conjunct2, THEN conjunct2, THEN conjunct2, THEN conjunct1]
  have "?k1 \<in> set ?R" "?k2 \<in> set ?R" by (simp_all add: rq)
  with th5 have "get_generated_time (loop_registry ?e ?now (keygen_calls ?W) ?R (registry ?W))
                   (size_t_of_int (k_number ?k1)) = ?now"
    and "get_generated_time (loop_registry ?e ?now (keygen_calls ?W) ?R (registry ?W))
                   (size_t_of_int (k_number ?k2)) = ?now"
    by blast+
  then have b: "get_generated_time (registry (snd (main ?e ?ab ?args initial_world))) 1 = 1000"
    and c: "get_generated_time (registry (snd (main ?e ?ab ?args initial_world))) 2 = 1000"
    by (simp_all only: sm rg now sz KeyNumber.simps)
  have d: "\<exists>t3. events (snd (main ?e ?ab ?args initial_world))
          = [KeyGenerated (PKey 0), KeyRecorded 1 (PKey 0) 1000,
             FileOpened ''priv1.cxx'', FileWritten ''priv1.cxx'' ?t1,
             KeyGenerated (PKey 1), KeyRecorded 2 (PKey 1) 1000,
             FileOpened ''priv2.cxx'', FileWritten ''priv2.cxx'' ?t2,
             FileOpened ''pub.cxx'', FileWritten ''pub.cxx'' t3]"
    unfolding sm using ev unfolding ev0 le pub by simp
  note th4' = th [THEN conjunct2, THEN conjunct2, THEN conjunct2, THEN conjunct1, unfolded le]
  note th4 = th4' [unfolded now gd]
  have m1: "FileWritten ''priv1.cxx'' ?t1
          \<in> set [KeyGenerated (PKey 0), KeyRecorded 1 (PKey 0) 1000,
               FileOpened ''priv1.cxx'', FileWritten ''priv1.cxx'' ?t1,
               KeyGenerated (PKey 1), KeyRecorded 2 (PKey 1) 1000,
               FileOpened ''priv2.cxx'', FileWritten ''priv2.cxx'' ?t2]"
    and m2: "FileWritten ''priv2.cxx'' ?t2
          \<in> set [KeyGenerated (PKey 0), KeyRecorded 1 (PKey 0) 1000,
               FileOpened ''priv1.cxx'', FileWritten ''priv1.cxx'' ?t1,
               KeyGenerated (PKey 1), KeyRecorded 2 (PKey 1) 1000,
               FileOpened ''priv2.cxx'', FileWritten ''priv2.cxx'' ?t2]"
    by simp_all
  from th4 [THEN bspec, OF m1, THEN conjunct2]
  have f: "sublist (''#define GENERATED_TIME 1000'' @ [c_newline]) ?t1" by blast
  from th4 [THEN bspec, OF m2, THEN conjunct2]
  have h: "sublist (''#define GENERATED_TIME 1000'' @ [c_newline]) ?t2" by blast
  from clock a b c d f h show ?thesis by blast
qed

section \<open>The serializer: un-escaping, and the backslash\<close>

declare unescape.simps(2) [simp del]

lemma hex_value_hex_digit: "d < 16 \<Longrightarrow> hex_value (hex_digit d) = d"
  by (auto simp: hex_value_def hex_digit_def of_char_of Let_def)

lemma unescape_newline: "unescape (c_backslash # CHR ''n'' # rest) = c_newline # unescape rest"
  by (subst unescape.simps(2)) simp

lemma unescape_tab: "unescape (c_backslash # CHR ''t'' # rest) = c_tab # unescape rest"
  by (subst unescape.simps(2)) simp

lemma unescape_hex_byte:
  "unescape (c_backslash # CHR ''x'' # hex_byte c @ rest) = c # unescape rest"
proof -
  have "(of_char c :: nat) < 16 * 16" by simp
  then have d: "(of_char c :: nat) div 16 < 16" by (rule less_mult_imp_div_less)
  have m: "(of_char c :: nat) mod 16 < 16" by simp
  have "char_of (16 * ((of_char c :: nat) div 16) + (of_char c :: nat) mod 16) = c"
    by simp
  then show ?thesis
    by (subst unescape.simps(2))
      (simp add: hex_byte_def hex_value_hex_digit [OF d] hex_value_hex_digit [OF m])
qed

lemma c_string_loop_no_raw_newline:
  "c_string_loop False data = [] \<or> hd (c_string_loop False data) \<noteq> c_newline"
proof (cases data)
  case Nil
  then show ?thesis by simp
next
  case (Cons c cs)
  have "isprint c \<Longrightarrow> c \<noteq> c_newline" by (auto simp: isprint_def c_newline_def)
  with Cons show ?thesis
    by (simp add: c_newline_def c_backslash_def)
qed

lemma unescape_dquote_plain:
  assumes "rest = [] \<or> hd rest \<noteq> c_newline"
  shows "unescape (c_dquote # rest) = c_dquote # unescape rest"
proof -
  have n: "c_dquote \<noteq> c_backslash" by (simp add: c_dquote_def c_backslash_def)
  show ?thesis
  proof (cases rest)
    case Nil
    then show ?thesis using n by (subst unescape.simps(2)) simp
  next
    case (Cons a r)
    with assms have "a \<noteq> c_newline" by simp
    with Cons n show ?thesis
      by (subst unescape.simps(2)) (simp split: list.split)
  qed
qed

lemma unescape_line_break:
  "unescape (c_dquote # c_newline # CHR '' '' # CHR '' '' # c_dquote # rest) = unescape rest"
  by (subst unescape.simps(2)) (simp add: c_dquote_def c_backslash_def)

lemma unescape_plain:
  "c \<noteq> c_backslash \<Longrightarrow> c \<noteq> c_dquote \<Longrightarrow> unescape (c # rest) = c # unescape rest"
  by (subst unescape.simps(2)) simp

lemma unescape_one:
  assumes "c \<noteq> c_newline" "c \<noteq> c_backslash"
  shows "unescape ((if c = c_tab then [c_backslash, CHR ''t'']
                    else if isprint c then [c]
                    else [c_backslash, CHR ''x''] @ hex_byte c)
                   @ c_string_loop False cs)
         = c # unescape (c_string_loop False cs)"
proof (cases "c = c_tab")
  case True
  then show ?thesis by (simp add: unescape_tab)
next
  case False
  show ?thesis
  proof (cases "isprint c")
    case p: True
    show ?thesis
    proof (cases "c = c_dquote")
      case True
      with False p unescape_dquote_plain [OF c_string_loop_no_raw_newline [of cs]]
      show ?thesis by simp
    next
      case q: False
      with False p assms show ?thesis by (simp add: unescape_plain)
    qed
  next
    case n: False
    with False unescape_hex_byte [of c "c_string_loop False cs"] show ?thesis by simp
  qed
qed

lemma unescape_c_string_loop:
  "c_backslash \<notin> set data \<Longrightarrow> unescape (c_string_loop last_nl data) = data"
proof (induction data arbitrary: last_nl)
  case Nil
  then show ?case by simp
next
  case (Cons c cs)
  from Cons.prems have nb: "c \<noteq> c_backslash" and r: "c_backslash \<notin> set cs" by auto
  note ih = Cons.IH [OF r]
  show ?case
  proof (cases "c = c_newline")
    case True
    then show ?thesis by (simp add: ih unescape_newline)
  next
    case False
    have one: "unescape ((if c = c_tab then [c_backslash, CHR ''t'']
                    else if isprint c then [c]
                    else [c_backslash, CHR ''x''] @ hex_byte c)
                   @ c_string_loop False cs) = c # cs"
      using unescape_one [OF False nb, of cs] ih [of False] by simp
    show ?thesis
    proof (cases last_nl)
      case True
      have "c_string_loop True (c # cs)
              = c_dquote # c_newline # CHR '' '' # CHR '' '' # c_dquote #
                ((if c = c_tab then [c_backslash, CHR ''t'']
                    else if isprint c then [c]
                    else [c_backslash, CHR ''x''] @ hex_byte c)
                   @ c_string_loop False cs)"
        using False by simp
      with True one show ?thesis by (simp only: unescape_line_break)
    next
      case f: False
      have "c_string_loop False (c # cs)
              = (if c = c_tab then [c_backslash, CHR ''t'']
                    else if isprint c then [c]
                    else [c_backslash, CHR ''x''] @ hex_byte c)
                   @ c_string_loop False cs"
        using False by simp
      with f one show ?thesis by simp
    qed
  qed
qed

lemma c_string_decl_length_counts:
  "c_string_decl_length string_name index data
     = '';'' @ [c_newline] @ ''static const unsigned int '' @ string_name @ show_nat index
       @ ''_length = '' @ show_nat (length data) @ '';'' @ [c_newline]"
  by (simp add: c_string_decl_length_def)

text \<open>
  So far the claim holds: a byte sequence without a backslash byte is given back by
  un-escaping, whatever else it contains (newlines, tabs, quotes, control and high-bit
  bytes), and the length constant is the number of bytes, not of characters written.
\<close>

lemma output_c_string_round_trip:
  "c_backslash \<notin> set data \<Longrightarrow>
   unescape (c_string_loop False data) = data
   \<and> c_string_decl_length string_name index data
       = '';'' @ [c_newline] @ ''static const unsigned int '' @ string_name @ show_nat index
         @ ''_length = '' @ show_nat (length data) @ '';'' @ [c_newline]"
  by (simp add: unescape_c_string_loop c_string_decl_length_counts)

text \<open>
  Claim C1.  Un-escaping the literal written by \<^verbatim>\<open>output_c_string\<close> should give back the
  bytes it was written from, for every byte sequence.  A backslash byte is printable and so
  is copied as it is: the two bytes backslash, \<^verbatim>\<open>n\<close> and the single newline byte produce the
  same text between the quotes, and the same declaration of the literal, character for
  character; un-escaping it gives the newline byte, not the two bytes.  (The length
  constants differ: 2 and 1.)
\<close>

theorem output_c_string_backslash_collision:
  "c_string_loop False [c_backslash, CHR ''n''] = [c_backslash, CHR ''n'']
   \<and> c_string_loop False [c_newline] = [c_backslash, CHR ''n'']
   \<and> c_string_decl_data ''prc_privkey'' 1 [c_backslash, CHR ''n'']
       = c_string_decl_data ''prc_privkey'' 1 [c_newline]
   \<and> unescape (c_string_loop False [c_backslash, CHR ''n'']) = [c_newline]
   \<and> [c_newline] \<noteq> [c_backslash, CHR ''n'']"
  by code_simp

section \<open>The pass phrase of a request\<close>

lemma pkcs8_protection_rule:
  "pkcs8_protection (pkcs8_arguments pp)
     = (case pp of
          None \<Rightarrow> EncryptedAfterPrompt DES_EDE3_CBC
        | Some p \<Rightarrow> if p = [] then Cleartext else EncryptedWith DES_EDE3_CBC p)"
  by (simp add: pkcs8_protection_def pkcs8_arguments_def split: option.splits)

lemma write_private_key_written:
  assumes "can_open e f"
    and "pem_pkcs8 e pkey (fst (pkcs8_arguments pp)) (snd (pkcs8_arguments pp)) = Some data"
  shows "write_private_key e pkey f n now pp w
           = Inr ((), emit (FileWritten f (private_key_text f n now data))
                        (emit (FileOpened f) (put_cerr (rewriting_message f) w)))"
  using assms by (simp add: write_private_key_def Let_def case_prod_beta)

lemma output_c_string_declarations:
  "output_c_string string_name index data
     = declarations_text string_name index (c_string_loop False data) (length data)"
  by (simp add: output_c_string_def c_string_decl_data_def c_string_decl_length_def
      declarations_text_def)

lemma private_key_text_declarations:
  "private_key_text f n now data
     = private_key_header n
       @ declarations_text ''prc_privkey'' (size_t_of_int n) (c_string_loop False data)
           (length data)
       @ private_key_defines f n now"
  by (simp only: private_key_text_def output_c_string_declarations)

lemma request_succeeds_bytes:
  assumes "request_succeeds e tmpl c ki"
  shows "pem_pkcs8 e (generated_key e c) (fst (pkcs8_arguments (request_pass_phrase ki)))
           (snd (pkcs8_arguments (request_pass_phrase ki))) = Some (private_key_bytes e c ki)"
  using assms
  by (auto simp: request_succeeds_def generated_key_def private_key_bytes_def
      split: keygen_outcome.splits)

lemma request_events_declarations:
  "request_events e now tmpl c ki
     = [KeyGenerated (generated_key e c),
        KeyRecorded (size_t_of_int (k_number ki)) (generated_key e c) now,
        FileOpened (private_key_filename tmpl (k_number ki)),
        FileWritten (private_key_filename tmpl (k_number ki))
          (private_key_header (k_number ki)
           @ declarations_text ''prc_privkey'' (size_t_of_int (k_number ki))
               (c_string_loop False (private_key_bytes e c ki))
               (length (private_key_bytes e c ki))
           @ private_key_defines (private_key_filename tmpl (k_number ki)) (k_number ki) now)]"
  by (simp only: request_events_def Let_def private_key_text_declarations)

lemma accepted_request_pass_phrase:
  assumes "list_all token_accepted args" and "j < length args"
  shows "request_pass_phrase (accepted_requests flags args ! j)
           = (if snd (strtol (args ! j)) = []
              then (if got_pass_phrase (scan_options flags initial_options)
                    then Some (pass_phrase (scan_options flags initial_options)) else None)
              else Some (tl (snd (strtol (args ! j)))))"
proof -
  let ?g = "got_pass_phrase (scan_options flags initial_options)"
  let ?gp = "pass_phrase (scan_options flags initial_options)"
  obtain v r where vr: "strtol (args ! j) = (v, r)" by (cases "strtol (args ! j)")
  from assms have "token_accepted (args ! j)" by (simp add: list_all_length)
  with vr have "0 < long_to_int v" "r = [] \<or> hd r = CHR '',''"
    by (simp_all add: token_accepted_def)
  then have "request_pass_phrase (projr (parse_key_number ?g ?gp (args ! j)))
               = (if r = [] then (if ?g then Some ?gp else None) else Some (tl r))"
    by (auto simp: parse_key_number_cases [OF vr] request_pass_phrase_def)
  with assms(2) vr show ?thesis by (simp add: accepted_requests_def Let_def)
qed

lemma loop_requests_written:
  assumes "requests_succeed e tmpl c reqs" and "j < length reqs"
  shows "\<exists>bytes.
           pem_pkcs8 e (generated_key e (c + j))
             (fst (pkcs8_arguments (request_pass_phrase (reqs ! j))))
             (snd (pkcs8_arguments (request_pass_phrase (reqs ! j)))) = Some bytes
           \<and> request_events e now tmpl (c + j) (reqs ! j)
               = [KeyGenerated (generated_key e (c + j)),
                  KeyRecorded (size_t_of_int (k_number (reqs ! j))) (generated_key e (c + j)) now,
                  FileOpened (private_key_filename tmpl (k_number (reqs ! j))),
                  FileWritten (private_key_filename tmpl (k_number (reqs ! j)))
                    (private_key_header (k_number (reqs ! j))
                     @ declarations_text ''prc_privkey'' (size_t_of_int (k_number (reqs ! j)))
                         (c_string_loop False bytes) (length bytes)
                     @ private_key_defines (private_key_filename tmpl (k_number (reqs ! j)))
                         (k_number (reqs ! j)) now)]"
proof -
  from requests_succeed_nth [OF assms] have "request_succeeds e tmpl (c + j) (reqs ! j)" .
  from request_succeeds_bytes [OF this] request_events_declarations [of e now tmpl "c + j" "reqs ! j"]
  show ?thesis by blast
qed

text \<open>
  Claim C3.  The pass phrase of a request is the one written after the comma of its argument
  when there is a comma, else the one given with \<^verbatim>\<open>-p\<close> when \<^verbatim>\<open>-p\<close> was given, else none.
  With the empty pass phrase the private key is serialized in the clear; with a non-empty
  one it is encrypted (triple DES) under that phrase; with none the library's own prompt is
  left to supply the phrase.  \<^verbatim>\<open>write_private_key\<close> writes the bytes so produced into the
  private-key file, as the two declarations of the blob, and un-escaping the literal gives
  the bytes back (bytes without a backslash).  The loop of \<^verbatim>\<open>main\<close> serves the request at
  position \<open>j\<close> with the key of call \<open>c + j\<close> and with that request's own pass phrase: the file
  it writes for the request holds the bytes serialized for that key under that phrase.  On
  an accepted command line \<^verbatim>\<open>main\<close> runs this loop on the requests read from the arguments,
  and their pass phrases follow the rule above.
\<close>

theorem pass_phrase_rule:
  "(parse_key_number g gp arg = Inr key \<longrightarrow>
      request_pass_phrase key
        = (if snd (strtol arg) = [] then (if g then Some gp else None)
           else Some (tl (snd (strtol arg)))))
   \<and> (0 < n \<and> n < 2 ^ 31 \<longrightarrow>
        request_pass_phrase (projr (parse_key_number g gp (show_int n)))
          = (if g then Some gp else None)
        \<and> request_pass_phrase (projr (parse_key_number g gp (show_int n @ CHR '','' # phrase)))
          = Some phrase)
   \<and> pkcs8_protection (pkcs8_arguments pp)
       = (case pp of
            None \<Rightarrow> EncryptedAfterPrompt DES_EDE3_CBC
          | Some p \<Rightarrow> if p = [] then Cleartext else EncryptedWith DES_EDE3_CBC p)
   \<and> (can_open e f
        \<and> pem_pkcs8 e pkey (fst (pkcs8_arguments pp)) (snd (pkcs8_arguments pp)) = Some data \<longrightarrow>
        write_private_key e pkey f m now pp w
          = Inr ((), emit (FileWritten f
                             (private_key_header m
                              @ declarations_text ''prc_privkey'' (size_t_of_int m)
                                  (c_string_loop False data) (length data)
                              @ private_key_defines f m now))
                       (emit (FileOpened f) (put_cerr (rewriting_message f) w))))
   \<and> (c_backslash \<notin> set data \<longrightarrow> unescape (c_string_loop False data) = data)
   \<and> (requests_succeed e tmpl (keygen_calls w) reqs \<longrightarrow>
        (\<exists>w'. generate_loop e now tmpl reqs w = Inr ((), w')
           \<and> events w'
               = events w
                 @ concat (map (\<lambda>j. request_events e now tmpl (keygen_calls w + j) (reqs ! j))
                             [0..<length reqs]))
        \<and> (\<forall>j<length reqs. \<exists>bytes.
              pem_pkcs8 e (generated_key e (keygen_calls w + j))
                (fst (pkcs8_arguments (request_pass_phrase (reqs ! j))))
                (snd (pkcs8_arguments (request_pass_phrase (reqs ! j)))) = Some bytes
              \<and> request_events e now tmpl (keygen_calls w + j) (reqs ! j)
                  = [KeyGenerated (generated_key e (keygen_calls w + j)),
                     KeyRecorded (size_t_of_int (k_number (reqs ! j)))
                       (generated_key e (keygen_calls w + j)) now,
                     FileOpened (private_key_filename tmpl (k_number (reqs ! j))),
                     FileWritten (private_key_filename tmpl (k_number (reqs ! j)))
                       (private_key_header (k_number (reqs ! j))
                        @ declarations_text ''prc_privkey'' (size_t_of_int (k_number (reqs ! j)))
                            (c_string_loop False bytes) (length bytes)
                        @ private_key_defines (private_key_filename tmpl (k_number (reqs ! j)))
                            (k_number (reqs ! j)) now)]))
   \<and> (command_line_accepted e flags args \<longrightarrow>
        main e flags args w0
          = generate_all e (accepted_options e flags) (accepted_requests flags args)
              (accepted_world e flags w0)
        \<and> length (accepted_requests flags args) = length args
        \<and> (\<forall>j<length args.
              request_pass_phrase (accepted_requests flags args ! j)
                = (if snd (strtol (args ! j)) = []
                   then (if got_pass_phrase (scan_options flags initial_options)
                         then Some (pass_phrase (scan_options flags initial_options)) else None)
                   else Some (tl (snd (strtol (args ! j)))))))
   \<and> (generation_succeeds e opts reqs w \<longrightarrow>
        requests_succeed e (split_at_hash (get_fullpath_wo_extension (priv_outfile opts)))
          (keygen_calls w) reqs
        \<and> (\<exists>w' table. generate_all e opts reqs w = (0, w')
             \<and> events w'
                 = events w
                   @ concat (map (\<lambda>j. request_events e (wall_clock e (time_calls w))
                                         (split_at_hash
                                            (get_fullpath_wo_extension (priv_outfile opts)))
                                         (keygen_calls w + j) (reqs ! j))
                               [0..<length reqs])
                   @ [FileOpened (pub_outfile opts), FileWritten (pub_outfile opts) table]))"
proof -
  obtain v r where vr: "strtol arg = (v, r)" by (cases "strtol arg")
  have a: "parse_key_number g gp arg = Inr key \<longrightarrow>
      request_pass_phrase key
        = (if snd (strtol arg) = [] then (if g then Some gp else None)
           else Some (tl (snd (strtol arg))))"
    using vr by (auto simp: parse_key_number_cases [OF vr] request_pass_phrase_def split: if_splits)
  have b: "0 < n \<and> n < 2 ^ 31 \<longrightarrow>
        request_pass_phrase (projr (parse_key_number g gp (show_int n)))
          = (if g then Some gp else None)
        \<and> request_pass_phrase (projr (parse_key_number g gp (show_int n @ CHR '','' # phrase)))
          = Some phrase"
  proof
    assume h: "0 < n \<and> n < 2 ^ 31"
    then have c: "clamp_long n = n" by (intro clamp_long_in_range) simp_all
    from h have l: "long_to_int n = n" by (intro long_to_int_in_range) simp_all
    have s1: "strtol (show_int n) = (n, [])"
      using strtol_show_int [of "[]" n] c by simp
    have s2: "strtol (show_int n @ CHR '','' # phrase) = (n, CHR '','' # phrase)"
      using strtol_show_int [of "CHR '','' # phrase" n] c by simp
    show "request_pass_phrase (projr (parse_key_number g gp (show_int n)))
          = (if g then Some gp else None)
        \<and> request_pass_phrase (projr (parse_key_number g gp (show_int n @ CHR '','' # phrase)))
          = Some phrase"
      using h by (simp add: parse_key_number_cases [OF s1] parse_key_number_cases [OF s2] l
          request_pass_phrase_def)
  qed
  have d: "can_open e f
        \<and> pem_pkcs8 e pkey (fst (pkcs8_arguments pp)) (snd (pkcs8_arguments pp)) = Some data \<longrightarrow>
        write_private_key e pkey f m now pp w
          = Inr ((), emit (FileWritten f
                             (private_key_header m
                              @ declarations_text ''prc_privkey'' (size_t_of_int m)
                                  (c_string_loop False data) (length data)
                              @ private_key_defines f m now))
                       (emit (FileOpened f) (put_cerr (rewriting_message f) w)))"
    using write_private_key_written [of e f pkey pp data m now w]
    by (simp only: private_key_text_declarations) blast
  have u: "c_backslash \<notin> set data \<longrightarrow> unescape (c_string_loop False data) = data"
    using unescape_c_string_loop by blast
  have l: "requests_succeed e tmpl (keygen_calls w) reqs \<longrightarrow>
        (\<exists>w'. generate_loop e now tmpl reqs w = Inr ((), w')
           \<and> events w'
               = events w
                 @ concat (map (\<lambda>j. request_events e now tmpl (keygen_calls w + j) (reqs ! j))
                             [0..<length reqs]))
        \<and> (\<forall>j<length reqs. \<exists>bytes.
              pem_pkcs8 e (generated_key e (keygen_calls w + j))
                (fst (pkcs8_arguments (request_pass_phrase (reqs ! j))))
                (snd (pkcs8_arguments (request_pass_phrase (reqs ! j)))) = Some bytes
              \<and> request_events e now tmpl (keygen_calls w + j) (reqs ! j)
                  = [KeyGenerated (generated_key e (keygen_calls w + j)),
                     KeyRecorded (size_t_of_int (k_number (reqs ! j)))
                       (generated_key e (keygen_calls w + j)) now,
                     FileOpened (private_key_filename tmpl (k_number (reqs ! j))),
                     FileWritten (private_key_filename tmpl (k_number (reqs ! j)))
                       (private_key_header (k_number (reqs ! j))
                        @ declarations_text ''prc_privkey'' (size_t_of_int (k_number (reqs ! j)))
                            (c_string_loop False bytes) (length bytes)
                        @ private_key_defines (private_key_filename tmpl (k_number (reqs ! j)))
                            (k_number (reqs ! j)) now)])"
  proof
    assume r: "requests_succeed e tmpl (keygen_calls w) reqs"
    have "\<exists>w'. generate_loop e now tmpl reqs w = Inr ((), w')
           \<and> events w'
               = events w
                 @ concat (map (\<lambda>j. request_events e now tmpl (keygen_calls w + j) (reqs ! j))
                             [0..<length reqs])"
      by (simp add: generate_loop_succeeds [OF r] loop_events_concat)
    moreover have "\<forall>j<length reqs. \<exists>bytes.
              pem_pkcs8 e (generated_key e (keygen_calls w + j))
                (fst (pkcs8_arguments (request_pass_phrase (reqs ! j))))
                (snd (pkcs8_arguments (request_pass_phrase (reqs ! j)))) = Some bytes
              \<and> request_events e now tmpl (keygen_calls w + j) (reqs ! j)
                  = [KeyGenerated (generated_key e (keygen_calls w + j)),
                     KeyRecorded (size_t_of_int (k_number (reqs ! j)))
                       (generated_key e (keygen_calls w + j)) now,
                     FileOpened (private_key_filename tmpl (k_number (reqs ! j))),
                     FileWritten (private_key_filename tmpl (k_number (reqs ! j)))
                       (private_key_header (k_number (reqs ! j))
                        @ declarations_text ''prc_privkey'' (size_t_of_int (k_number (reqs ! j)))
                            (c_string_loop False bytes) (length bytes)
                        @ private_key_defines (private_key_filename tmpl (k_number (reqs ! j)))
                            (k_number (reqs ! j)) now)]"
      using loop_requests_written [OF r] by blast
    ultimately show "(\<exists>w'. generate_loop e now tmpl reqs w = Inr ((), w')
           \<and> events w'
               = events w
                 @ concat (map (\<lambda>j. request_events e now tmpl (keygen_calls w + j) (reqs ! j))
                             [0..<length reqs]))
        \<and> (\<forall>j<length reqs. \<exists>bytes.
              pem_pkcs8 e (generated_key e (keygen_calls w + j))
                (fst (pkcs8_arguments (request_pass_phrase (reqs ! j))))
                (snd (pkcs8_arguments (request_pass_phrase (reqs ! j)))) = Some bytes
              \<and> request_events e now tmpl (keygen_calls w + j) (reqs ! j)
                  = [KeyGenerated (generated_key e (keygen_calls w + j)),
                     KeyRecorded (size_t_of_int (k_number (reqs ! j)))
                       (generated_key e (keygen_calls w + j)) now,
                     FileOpened (private_key_filename tmpl (k_number (reqs ! j))),
                     FileWritten (private_key_filename tmpl (k_number (reqs ! j)))
                       (private_key_header (k_number (reqs ! j))
                        @ declarations_text ''prc_privkey'' (size_t_of_int (k_number (reqs ! j)))
                            (c_string_loop False bytes) (length bytes)
                        @ private_key_defines (private_key_filename tmpl (k_number (reqs ! j)))
                            (k_number (reqs ! j)) now)])"
      by (rule conjI)
  qed
  have m: "command_line_accepted e flags args \<longrightarrow>
        main e flags args w0
          = generate_all e (accepted_options e flags) (accepted_requests flags args)
              (accepted_world e flags w0)
        \<and> length (accepted_requests flags args) = length args
        \<and> (\<forall>j<length args.
              request_pass_phrase (accepted_requests flags args ! j)
                = (if snd (strtol (args ! j)) = []
                   then (if got_pass_phrase (scan_options flags initial_options)
                         then Some (pass_phrase (scan_options flags initial_options)) else None)
                   else Some (tl (snd (strtol (args ! j))))))"
  proof
    assume acc: "command_line_accepted e flags args"
    then have t: "list_all token_accepted args" by (simp add: command_line_accepted_def)
    have "length (accepted_requests flags args) = length args"
      by (simp add: accepted_requests_def Let_def)
    with main_accepted [OF acc, of w0] accepted_request_pass_phrase [OF t, of _ flags]
    show "main e flags args w0
          = generate_all e (accepted_options e flags) (accepted_requests flags args)
              (accepted_world e flags w0)
        \<and> length (accepted_requests flags args) = length args
        \<and> (\<forall>j<length args.
              request_pass_phrase (accepted_requests flags args ! j)
                = (if snd (strtol (args ! j)) = []
                   then (if got_pass_phrase (scan_options flags initial_options)
                         then Some (pass_phrase (scan_options flags initial_options)) else None)
                   else Some (tl (snd (strtol (args ! j))))))"
      by blast
  qed
  have s: "generation_succeeds e opts reqs w \<longrightarrow>
        requests_succeed e (split_at_hash (get_fullpath_wo_extension (priv_outfile opts)))
          (keygen_calls w) reqs
        \<and> (\<exists>w' table. generate_all e opts reqs w = (0, w')
             \<and> events w'
                 = events w
                   @ concat (map (\<lambda>j. request_events e (wall_clock e (time_calls w))
                                         (split_at_hash
                                            (get_fullpath_wo_extension (priv_outfile opts)))
                                         (keygen_calls w + j) (reqs ! j))
                               [0..<length reqs])
                   @ [FileOpened (pub_outfile opts), FileWritten (pub_outfile opts) table])"
  proof
    assume ok: "generation_succeeds e opts reqs w"
    then have r: "requests_succeed e (split_at_hash (get_fullpath_wo_extension (priv_outfile opts)))
          (keygen_calls w) reqs"
      by (simp add: generation_succeeds_def Let_def)
    from generate_all_succeeds [OF ok] obtain blobs w' where
      "generate_all e opts reqs w = (0, w')"
      "events w' = events w
         @ loop_events e (wall_clock e (time_calls w))
             (split_at_hash (get_fullpath_wo_extension (priv_outfile opts))) (keygen_calls w) reqs
         @ [FileOpened (pub_outfile opts),
            FileWritten (pub_outfile opts)
              (public_keys_header @ blobs
               @ public_keys_table (loop_registry e (wall_clock e (time_calls w))
                                      (keygen_calls w) reqs (registry w)))]"
      by blast
    then have "\<exists>w' table. generate_all e opts reqs w = (0, w')
             \<and> events w'
                 = events w
                   @ concat (map (\<lambda>j. request_events e (wall_clock e (time_calls w))
                                         (split_at_hash
                                            (get_fullpath_wo_extension (priv_outfile opts)))
                                         (keygen_calls w + j) (reqs ! j))
                               [0..<length reqs])
                   @ [FileOpened (pub_outfile opts), FileWritten (pub_outfile opts) table]"
      by (simp only: loop_events_concat) blast
    with r show "requests_succeed e (split_at_hash (get_fullpath_wo_extension (priv_outfile opts)))
          (keygen_calls w) reqs
        \<and> (\<exists>w' table. generate_all e opts reqs w = (0, w')
             \<and> events w'
                 = events w
                   @ concat (map (\<lambda>j. request_events e (wall_clock e (time_calls w))
                                         (split_at_hash
                                            (get_fullpath_wo_extension (priv_outfile opts)))
                                         (keygen_calls w + j) (reqs ! j))
                               [0..<length reqs])
                   @ [FileOpened (pub_outfile opts), FileWritten (pub_outfile opts) table])"
      by (rule conjI)
  qed
  show ?thesis
    by (intro conjI) (rule a b pkcs8_protection_rule d u l m s)+
qed

text \<open>
  A run with the requests \<^verbatim>\<open>1\<close> (no pass phrase: the prompt), \<^verbatim>\<open>2,hunter2\<close> (encrypted under
  \<^verbatim>\<open>hunter2\<close>) and \<^verbatim>\<open>3,\<close> (the empty pass phrase: in the clear), without \<^verbatim>\<open>-p\<close>.
\<close>

theorem pass_phrase_rule_witness:
  "(\<exists>w' table.
      main example_env [(CHR ''a'', ''pub.cxx''), (CHR ''b'', ''k#.cxx'')]
        [''1'', ''2,hunter2'', ''3,''] initial_world = (0, w')
      \<and> events w'
          = [KeyGenerated (PKey 0), KeyRecorded 1 (PKey 0) 1000, FileOpened ''k1.cxx'',
             FileWritten ''k1.cxx''
               (private_key_header 1
                @ declarations_text ''prc_privkey'' 1
                    (c_string_loop False (''PRIV0 prompt'' @ [c_newline])) 13
                @ private_key_defines ''k1.cxx'' 1 1000),
             KeyGenerated (PKey 1), KeyRecorded 2 (PKey 1) 1000, FileOpened ''k2.cxx'',
             FileWritten ''k2.cxx''
               (private_key_header 2
                @ declarations_text ''prc_privkey'' 2
                    (c_string_loop False (''PRIV1 des3 hunter2'' @ [c_newline])) 19
                @ private_key_defines ''k2.cxx'' 2 1000),
             KeyGenerated (PKey 2), KeyRecorded 3 (PKey 2) 1000, FileOpened ''k3.cxx'',
             FileWritten ''k3.cxx''
               (private_key_header 3
                @ declarations_text ''prc_privkey'' 3
                    (c_string_loop False (''PRIV2 clear'' @ [c_newline])) 12
                @ private_key_defines ''k3.cxx'' 3 1000),
             FileOpened ''pub.cxx'', FileWritten ''pub.cxx'' table])
   \<and> map request_pass_phrase
       (accepted_requests [(CHR ''a'', ''pub.cxx''), (CHR ''b'', ''k#.cxx'')]
          [''1'', ''2,hunter2'', ''3,''])
       = [None, Some ''hunter2'', Some []]
   \<and> pkcs8_protection (pkcs8_arguments None) = EncryptedAfterPrompt DES_EDE3_CBC
   \<and> pkcs8_protection (pkcs8_arguments (Some ''hunter2'')) = EncryptedWith DES_EDE3_CBC ''hunter2''
   \<and> pkcs8_protection (pkcs8_arguments (Some [])) = Cleartext
   \<and> unescape (c_string_loop False (''PRIV1 des3 hunter2'' @ [c_newline]))
       = ''PRIV1 des3 hunter2'' @ [c_newline]"
proof -
  let ?ab = "[(CHR ''a'', ''pub.cxx''), (CHR ''b'', ''k#.cxx'')]"
  let ?args = "[''1'', ''2,hunter2'', ''3,'']"
  let ?e = "example_env"
  let ?W = "accepted_world ?e ?ab initial_world"
  let ?O = "accepted_options ?e ?ab"
  let ?R = "accepted_requests ?ab ?args"
  have acc: "command_line_accepted ?e ?ab ?args" by code_simp
  have ok: "generation_succeeds ?e ?O ?R ?W" by code_simp
  have ev0: "events ?W = []" by code_simp
  have pub: "pub_outfile ?O = ''pub.cxx''" by code_simp
  have le: "concat (map (\<lambda>j. request_events ?e (wall_clock ?e (time_calls ?W))
                               (split_at_hash (get_fullpath_wo_extension (priv_outfile ?O)))
                               (keygen_calls ?W + j) (?R ! j))
                     [0..<length ?R])
     = [KeyGenerated (PKey 0), KeyRecorded 1 (PKey 0) 1000, FileOpened ''k1.cxx'',
        FileWritten ''k1.cxx''
          (private_key_header 1
           @ declarations_text ''prc_privkey'' 1
               (c_string_loop False (''PRIV0 prompt'' @ [c_newline])) 13
           @ private_key_defines ''k1.cxx'' 1 1000),
        KeyGenerated (PKey 1), KeyRecorded 2 (PKey 1) 1000, FileOpened ''k2.cxx'',
        FileWritten ''k2.cxx''
          (private_key_header 2
           @ declarations_text ''prc_privkey'' 2
               (c_string_loop False (''PRIV1 des3 hunter2'' @ [c_newline])) 19
           @ private_key_defines ''k2.cxx'' 2 1000),
        KeyGenerated (PKey 2), KeyRecorded 3 (PKey 2) 1000, FileOpened ''k3.cxx'',
        FileWritten ''k3.cxx''
          (private_key_header 3
           @ declarations_text ''prc_privkey'' 3
               (c_string_loop False (''PRIV2 clear'' @ [c_newline])) 12
           @ private_key_defines ''k3.cxx'' 3 1000)]"
    by code_simp
  have s1: "snd (strtol ''1'') = []" and s2: "snd (strtol ''2,hunter2'') = '',hunter2''"
    and s3: "snd (strtol ''3,'') = '',''" by code_simp+
  have gp: "got_pass_phrase (scan_options ?ab initial_options) = False" by code_simp
  have bs: "c_backslash \<notin> set (''PRIV1 des3 hunter2'' @ [c_newline])" by code_simp
  note th = pass_phrase_rule [where e = ?e and flags = ?ab and args = ?args
      and ?w0.0 = initial_world and opts = ?O and reqs = ?R and w = ?W]
  note m = th [THEN conjunct2, THEN conjunct2, THEN conjunct2, THEN conjunct2, THEN conjunct2,
      THEN conjunct2, THEN conjunct1, rule_format, OF acc]
  note g = th [THEN conjunct2, THEN conjunct2, THEN conjunct2, THEN conjunct2, THEN conjunct2,
      THEN conjunct2, THEN conjunct2, rule_format, OF ok]
  from g [THEN conjunct2] obtain w' table where
    ga: "generate_all ?e ?O ?R ?W = (0, w')"
    and ev: "events w' = events ?W
         @ concat (map (\<lambda>j. request_events ?e (wall_clock ?e (time_calls ?W))
                               (split_at_hash (get_fullpath_wo_extension (priv_outfile ?O)))
                               (keygen_calls ?W + j) (?R ! j))
                     [0..<length ?R])
         @ [FileOpened (pub_outfile ?O), FileWritten (pub_outfile ?O) table]"
    by blast
  from ev have ev': "events w' = [KeyGenerated (PKey 0), KeyRecorded 1 (PKey 0) 1000, FileOpened ''k1.cxx'',
        FileWritten ''k1.cxx''
          (private_key_header 1
           @ declarations_text ''prc_privkey'' 1
               (c_string_loop False (''PRIV0 prompt'' @ [c_newline])) 13
           @ private_key_defines ''k1.cxx'' 1 1000),
        KeyGenerated (PKey 1), KeyRecorded 2 (PKey 1) 1000, FileOpened ''k2.cxx'',
        FileWritten ''k2.cxx''
          (private_key_header 2
           @ declarations_text ''prc_privkey'' 2
               (c_string_loop False (''PRIV1 des3 hunter2'' @ [c_newline])) 19
           @ private_key_defines ''k2.cxx'' 2 1000),
        KeyGenerated (PKey 2), KeyRecorded 3 (PKey 2) 1000, FileOpened ''k3.cxx'',
        FileWritten ''k3.cxx''
          (private_key_header 3
           @ declarations_text ''prc_privkey'' 3
               (c_string_loop False (''PRIV2 clear'' @ [c_newline])) 12
           @ private_key_defines ''k3.cxx'' 3 1000),
        FileOpened ''pub.cxx'', FileWritten ''pub.cxx'' table]"
    by (simp only: le ev0 pub append_Nil append_Cons)
  from m [THEN conjunct1] ga
  have a: "main ?e ?ab ?args initial_world = (0, w')" by (simp only:)
  have len: "length ?R = 3" using m [THEN conjunct2, THEN conjunct1] by simp
  have n0: "?args ! 0 = ''1''" and n1: "?args ! 1 = ''2,hunter2''" and n2: "?args ! 2 = ''3,''"
    by simp_all
  have l3: "(0::nat) < length ?args" "(1::nat) < length ?args" "(2::nat) < length ?args"
    by simp_all
  note q = m [THEN conjunct2, THEN conjunct2, rule_format]
  have p0: "request_pass_phrase (?R ! 0) = None"
    using q [OF l3(1)] unfolding n0 s1 gp by simp
  have p1: "request_pass_phrase (?R ! 1) = Some ''hunter2''"
    using q [OF l3(2)] unfolding n1 s2 gp by simp
  have p2: "request_pass_phrase (?R ! 2) = Some []"
    using q [OF l3(3)] unfolding n2 s3 gp by simp
  have b: "map request_pass_phrase ?R = [None, Some ''hunter2'', Some []]"
  proof (rule nth_equalityI)
    show "length (map request_pass_phrase ?R) = length [None, Some ''hunter2'', Some []]"
      by (simp only: length_map len) simp
  next
    fix i assume "i < length (map request_pass_phrase ?R)"
    then have "i < 3" by (simp only: length_map len)
    then have "i = 0 \<or> i = 1 \<or> i = 2" by arith
    with p0 p1 p2 len show "map request_pass_phrase ?R ! i = [None, Some ''hunter2'', Some []] ! i"
      by auto
  qed
  from th [where pp = None, THEN conjunct2, THEN conjunct2, THEN conjunct1]
  have c1: "pkcs8_protection (pkcs8_arguments None) = EncryptedAfterPrompt DES_EDE3_CBC" by simp
  from th [where pp = "Some ''hunter2''", THEN conjunct2, THEN conjunct2, THEN conjunct1]
  have c2: "pkcs8_protection (pkcs8_arguments (Some ''hunter2''))
              = EncryptedWith DES_EDE3_CBC ''hunter2''" by simp
  from th [where pp = "Some []", THEN conjunct2, THEN conjunct2, THEN conjunct1]
  have c3: "pkcs8_protection (pkcs8_arguments (Some [])) = Cleartext" by simp
  from th [where data = "''PRIV1 des3 hunter2'' @ [c_newline]", THEN conjunct2, THEN conjunct2,
      THEN conjunct2, THEN conjunct2, THEN conjunct1, rule_format, OF bs]
  have u: "unescape (c_string_loop False (''PRIV1 des3 hunter2'' @ [c_newline]))
       = ''PRIV1 des3 hunter2'' @ [c_newline]" .
  from a ev' have "\<exists>w' table. main ?e ?ab ?args initial_world = (0, w') \<and> events w'
          = [KeyGenerated (PKey 0), KeyRecorded 1 (PKey 0) 1000, FileOpened ''k1.cxx'',
        FileWritten ''k1.cxx''
          (private_key_header 1
           @ declarations_text ''prc_privkey'' 1
               (c_string_loop False (''PRIV0 prompt'' @ [c_newline])) 13
           @ private_key_defines ''k1.cxx'' 1 1000),
        KeyGenerated (PKey 1), KeyRecorded 2 (PKey 1) 1000, FileOpened ''k2.cxx'',
        FileWritten ''k2.cxx''
          (private_key_header 2
           @ declarations_text ''prc_privkey'' 2
               (c_string_loop False (''PRIV1 des3 hunter2'' @ [c_newline])) 19
           @ private_key_defines ''k2.cxx'' 2 1000),
        KeyGenerated (PKey 2), KeyRecorded 3 (PKey 2) 1000, FileOpened ''k3.cxx'',
        FileWritten ''k3.cxx''
          (private_key_header 3
           @ declarations_text ''prc_privkey'' 3
               (c_string_loop False (''PRIV2 clear'' @ [c_newline])) 12
           @ private_key_defines ''k3.cxx'' 3 1000),
        FileOpened ''pub.cxx'', FileWritten ''pub.cxx'' table]"
    by blast
  with b c1 c2 c3 u show ?thesis by (intro conjI)
qed

section \<open>A trust level asked for more than once\<close>























end
